theory Spec2Isabelle
  imports Main
begin

section \<open>Values, principals and errors\<close>

text \<open>
  Tool arguments, handler results and principal constraints are JSON-like Python values
  (\<^verbatim>\<open>Dict[str, Any]\<close>). A dict is an association list in insertion order. Python floats
  are never inspected by the registry or the credential store, so their type is left
  abstract.
\<close>

typedecl pyfloat

datatype json =
    JNull
  | JBool bool
  | JInt int
  | JFloat pyfloat
  | JStr string
  | JArr "json list"
  | JObj "(string \<times> json) list"

text \<open>\<^verbatim>\<open>models.Principal\<close>: the authenticated caller.\<close>

record principal =
  principal_id :: string
  capabilities :: "string list"
  constraints :: "(string \<times> json) list"
  disabled :: bool

text \<open>
  One entry of pydantic's \<^verbatim>\<open>ValidationError.errors()\<close>: the field it is about (\<^verbatim>\<open>loc\<close>)
  and whether the field was missing or its value did not validate against the declared type.
\<close>

datatype error_type = Missing | Invalid

datatype field_error = FieldError string error_type

text \<open>
  Every exception the modelled code raises. The three \<^verbatim>\<open>HTTPException\<close>s carry the status
  in their name and the \<^verbatim>\<open>detail\<close> as argument: \<open>Unauthorized\<close> is status 401,
  \<open>Forbidden\<close> is 403, \<open>ValidationError\<close> is 422 with \<^verbatim>\<open>detail=e.errors()\<close>. The others
  are Python exceptions that the code does not catch.
\<close>

datatype error =
    Unauthorized string
  | Forbidden string
  | ValidationError "field_error list"
  | RuntimeError string
  | TypeError string
  | OSError
  | JSONDecodeError
  | Raised string

section \<open>Capability matcher\<close>

text \<open>
  \<^verbatim>\<open>fnmatch.fnmatch\<close> belongs to Python's standard library, not to the repository. The
  registry functions take it as the parameter \<open>fnmatch\<close> (name first, pattern second), so
  what is proved of them holds for whatever the library function computes.
\<close>

type_synonym matcher = "string \<Rightarrow> string \<Rightarrow> bool"

text \<open>
  \<^verbatim>\<open>ToolRegistry._principal_has\<close>, as a loop over the capability list: the first capability
  that is a wildcard marker or matches in either direction returns True.
\<close>

fun has_cap :: "matcher \<Rightarrow> string list \<Rightarrow> string \<Rightarrow> bool" where
  "has_cap fnmatch [] required = False"
| "has_cap fnmatch (cap # caps) required =
     (if cap = ''*'' \<or> cap = ''admin:*'' then True
      else if fnmatch required cap \<or> fnmatch cap required then True
      else has_cap fnmatch caps required)"

definition principal_has :: "matcher \<Rightarrow> principal \<Rightarrow> string \<Rightarrow> bool" where
  "principal_has fnmatch p required = has_cap fnmatch (capabilities p) required"

text \<open>
  Modelled from the spec: the glob syntax of section 4.2, which stands for the library's
  \<^verbatim>\<open>fnmatch\<close> wherever a concrete match is evaluated. \<open>*\<close> matches zero or more of any
  character, \<open>?\<close> exactly one, every other character itself, case-sensitively, and the
  whole name must be consumed. (The library also reads \<open>[seq]\<close> as a character class;
  no pattern evaluated below contains a bracket.)
\<close>

fun glob :: "string \<Rightarrow> string \<Rightarrow> bool" where
  "glob [] [] = True"
| "glob (c # cs) [] = False"
| "glob [] (p # ps) = (p = CHR ''*'' \<and> glob [] ps)"
| "glob (c # cs) (p # ps) =
     (if p = CHR ''*'' then glob (c # cs) ps \<or> glob cs (p # ps)
      else if p = CHR ''?'' then glob cs ps
      else c = p \<and> glob cs ps)"

section \<open>Tool registry\<close>

text \<open>
  One parameter of a handler's signature, as \<^verbatim>\<open>inspect.signature\<close> and
  \<^verbatim>\<open>get_type_hints\<close> report it: its name, its annotation (\<open>None\<close> when it has none, which
  \<^verbatim>\<open>hints.get(pname, Any)\<close> turns into \<^verbatim>\<open>Any\<close>) and its default (\<open>None\<close> for
  \<^verbatim>\<open>inspect._empty\<close>). \<open>'ty\<close> is the type of annotations.
\<close>

record 'ty param =
  pname :: string
  annotation :: "'ty option"
  default_of :: "json option"

text \<open>
  What a handler receives under one keyword: a validated argument, or the
  \<^verbatim>\<open>Principal\<close> the registry injected.
\<close>

datatype kwarg = Arg json | Injected principal

text \<open>
  A handler: the callable \<^verbatim>\<open>fn\<close> as the registry sees it. \<open>run\<close> is the call
  \<^verbatim>\<open>fn(**kwargs)\<close>: from the keyword arguments and the state \<open>'w\<close> of everything the
  handler can touch, to the returned value or the raised exception and the new state.
  For a coroutine function the registry awaits the call; the outcome is the same.
\<close>

record ('ty, 'w) handler =
  fn_name :: string
  fn_doc :: "string option"
  parameters :: "'ty param list"
  run :: "(string \<rightharpoonup> kwarg) \<Rightarrow> 'w \<Rightarrow> (error + json) \<times> 'w"

text \<open>
  The input model that \<^verbatim>\<open>create_model\<close> builds from \<^verbatim>\<open>fields\<close>: per field its name,
  its annotation and its default (\<open>None\<close> for the required marker \<^verbatim>\<open>...\<close>).
\<close>

type_synonym 'ty input_model = "(string \<times> 'ty option \<times> json option) list"

record ('ty, 'w) tooldef =
  name :: string
  description :: string
  fn :: "('ty, 'w) handler"
  input_model :: "'ty input_model"
  required_caps :: "string list"
  tags :: "string list"

type_synonym ('ty, 'w) registry = "string \<rightharpoonup> ('ty, 'w) tooldef"

text \<open>
  Python's \<^verbatim>\<open>str.strip()\<close>: it drops the characters for which \<^verbatim>\<open>isspace()\<close> holds from
  both ends. A \<open>char\<close> is one code point below 256: tab to carriage return, the four
  separators 28 to 31, the blank, NEL (133) and the no-break space (160).
\<close>

definition isspace :: "char \<Rightarrow> bool" where
  "isspace c = (of_char c \<in> {9, 10, 11, 12, 13, 28, 29, 30, 31, 32, 133, 160 :: nat})"

definition strip :: "string \<Rightarrow> string" where
  "strip s = rev (dropWhile isspace (rev (dropWhile isspace s)))"

text \<open>Python's \<^verbatim>\<open>a or b\<close> on strings and on lists: the empty one is false.\<close>

definition or_else :: "'a list \<Rightarrow> 'a list \<Rightarrow> 'a list" where
  "or_else a b = (if a = [] then b else a)"

definition opt_list :: "'a list option \<Rightarrow> 'a list" where
  "opt_list x = (case x of None \<Rightarrow> [] | Some a \<Rightarrow> a)"

text \<open>
  The loop of \<^verbatim>\<open>ToolRegistry.register\<close> over \<^verbatim>\<open>sig.parameters.items()\<close>: it skips the
  parameter named \<^verbatim>\<open>user\<close> and records every other one as a field.
\<close>

fun build_fields :: "'ty param list \<Rightarrow> 'ty input_model" where
  "build_fields [] = []"
| "build_fields (p # ps) =
     (if pname p = ''user'' then build_fields ps
      else (pname p, annotation p, default_of p) # build_fields ps)"

text \<open>
  \<^verbatim>\<open>ToolRegistry.register\<close>. The keyword arguments \<^verbatim>\<open>name\<close>, \<^verbatim>\<open>description\<close>,
  \<^verbatim>\<open>required_caps\<close> and \<^verbatim>\<open>tags\<close> are optional (\<open>None\<close> when not given). The output
  model is the same for every tool (one required field \<^verbatim>\<open>value\<close> of type \<^verbatim>\<open>Any\<close>) and
  is built in \<open>call\<close>. Returns the definition and the registry with it stored.
\<close>

definition register ::
  "('ty, 'w) registry \<Rightarrow> ('ty, 'w) handler \<Rightarrow> string option \<Rightarrow> string option \<Rightarrow>
   string list option \<Rightarrow> string list option \<Rightarrow> ('ty, 'w) tooldef \<times> ('ty, 'w) registry" where
  "register tools h name_arg description_arg required_caps_arg tags_arg =
     (let tool_name = or_else (opt_list name_arg) (fn_name h);
          desc = or_else (opt_list description_arg)
                   (or_else (strip (opt_list (fn_doc h))) (''Tool '' @ tool_name));
          req = or_else (opt_list required_caps_arg) [''tool:'' @ tool_name];
          t = \<lparr> name = tool_name, description = desc, fn = h,
                input_model = build_fields (parameters h),
                required_caps = req, tags = opt_list tags_arg \<rparr>
      in (t, tools(tool_name \<mapsto> t)))"

text \<open>\<^verbatim>\<open>ToolRegistry.authorize_action\<close>.\<close>

definition authorize_action :: "matcher \<Rightarrow> principal \<Rightarrow> string \<Rightarrow> error + unit" where
  "authorize_action fnmatch p action =
     (if principal_has fnmatch p action then Inr ()
      else Inl (Forbidden (''Missing capability: '' @ action)))"

text \<open>
  The two loops of \<^verbatim>\<open>ToolRegistry.enforce_tool\<close>: each returns at the first entry the
  principal has; \<open>True\<close> is that early return.
\<close>

fun any_required :: "matcher \<Rightarrow> principal \<Rightarrow> string list \<Rightarrow> bool" where
  "any_required fnmatch p [] = False"
| "any_required fnmatch p (req # reqs) =
     (if principal_has fnmatch p req then True else any_required fnmatch p reqs)"

fun any_tag :: "matcher \<Rightarrow> principal \<Rightarrow> string list \<Rightarrow> bool" where
  "any_tag fnmatch p [] = False"
| "any_tag fnmatch p (tag # tgs) =
     (if principal_has fnmatch p (''tag:'' @ tag) then True else any_tag fnmatch p tgs)"

definition enforce_tool :: "matcher \<Rightarrow> principal \<Rightarrow> ('ty, 'w) tooldef \<Rightarrow> error + unit" where
  "enforce_tool fnmatch p tool =
     (if any_required fnmatch p (required_caps tool) then Inr ()
      else if any_tag fnmatch p (tags tool) then Inr ()
      else Inl (Forbidden ''Not authorized for this tool''))"

text \<open>
  \<^verbatim>\<open>tool.input_model(**args)\<close>: pydantic validates the keyword arguments against the
  fields of the model. pydantic is a library; what is modelled is its documented behaviour
  for a model created without a configuration, as \<open>register\<close> creates it:
  \<^item> a field found in \<open>args\<close> is validated against its annotation; \<^verbatim>\<open>Any\<close> accepts every
    value unchanged, and for every other annotation the validator of the library is the
    parameter \<open>validate_type\<close> (\<open>None\<close> when the value does not fit the type);
  \<^item> a field not in \<open>args\<close> takes its default, or is reported missing when it has none;
  \<^item> every failing field adds one entry to the error list, in field order, and the
    call raises when the list is not empty;
  \<^item> keys of \<open>args\<close> that name no field are never looked at: the default
    \<^verbatim>\<open>extra='ignore'\<close>.
  The result is \<^verbatim>\<open>parsed.model_dump()\<close>, field by field.
\<close>

type_synonym 'ty type_validator = "'ty \<Rightarrow> json \<Rightarrow> json option"

definition check_type :: "'ty type_validator \<Rightarrow> 'ty option \<Rightarrow> json \<Rightarrow> json option" where
  "check_type validate_type ann v =
     (case ann of None \<Rightarrow> Some v | Some ty \<Rightarrow> validate_type ty v)"

fun validate_fields ::
  "'ty type_validator \<Rightarrow> 'ty input_model \<Rightarrow> (string \<rightharpoonup> json) \<Rightarrow>
   field_error list \<times> (string \<times> json) list" where
  "validate_fields validate_type [] args = ([], [])"
| "validate_fields validate_type ((f, ann, dflt) # flds) args =
     (let (errs, vals) = validate_fields validate_type flds args in
      case args f of
        None \<Rightarrow>
          (case dflt of
             None \<Rightarrow> (FieldError f Missing # errs, vals)
           | Some d \<Rightarrow> (errs, (f, d) # vals))
      | Some v \<Rightarrow>
          (case check_type validate_type ann v of
             None \<Rightarrow> (FieldError f Invalid # errs, vals)
           | Some v' \<Rightarrow> (errs, (f, v') # vals)))"

definition validate_input ::
  "'ty type_validator \<Rightarrow> 'ty input_model \<Rightarrow> (string \<rightharpoonup> json) \<Rightarrow>
   field_error list + (string \<times> json) list" where
  "validate_input validate_type flds args =
     (case validate_fields validate_type flds args of
        ([], vals) \<Rightarrow> Inr vals
      | (e # errs, vals) \<Rightarrow> Inl (e # errs))"

text \<open>
  The keyword arguments of the handler call: the dumped fields, then the principal under
  \<^verbatim>\<open>principal\<close> if the signature has that parameter, else under \<^verbatim>\<open>user\<close> if it has that
  one.
\<close>

definition call_kwargs ::
  "('ty, 'w) tooldef \<Rightarrow> (string \<times> json) list \<Rightarrow> principal \<Rightarrow> (string \<rightharpoonup> kwarg)" where
  "call_kwargs tool parsed p =
     (let sig_parameters = map pname (parameters (fn tool));
          kwargs = map_of (map (\<lambda>(k, v). (k, Arg v)) parsed)
      in if ''principal'' \<in> set sig_parameters then kwargs(''principal'' \<mapsto> Injected p)
         else if ''user'' \<in> set sig_parameters then kwargs(''user'' \<mapsto> Injected p)
         else kwargs)"

text \<open>
  \<^verbatim>\<open>ToolRegistry.call\<close>, from the handler's state before the call to the output envelope
  \<^verbatim>\<open>{"value": value}\<close> or the exception, and the state after it. The handler runs in one
  place only, after validation has passed; an exception it raises is not caught.
\<close>

definition call ::
  "'ty type_validator \<Rightarrow> ('ty, 'w) tooldef \<Rightarrow> (string \<rightharpoonup> json) \<Rightarrow> principal \<Rightarrow> 'w \<Rightarrow>
   (error + (string \<times> json) list) \<times> 'w" where
  "call validate_type tool args p w =
     (case validate_input validate_type (input_model tool) args of
        Inl errs \<Rightarrow> (Inl (ValidationError errs), w)
      | Inr parsed \<Rightarrow>
          (case run (fn tool) (call_kwargs tool parsed p) w of
             (Inl e, w') \<Rightarrow> (Inl e, w')
           | (Inr v, w') \<Rightarrow> (Inr [(''value'', v)], w')))"

section \<open>Credential store\<close>

text \<open>
  A \<^verbatim>\<open>datetime\<close>: naive (no time zone) or aware, with its microseconds since the epoch
  (for an aware one, of the instant it denotes). \<^verbatim>\<open>_utcnow()\<close> is always aware.
\<close>

datatype datetime = Naive int | Aware int

text \<open>
  The comparison \<^verbatim>\<open>a < b\<close> of two datetimes: Python orders two aware datetimes by their
  instants and two naive ones by their fields, and raises \<^verbatim>\<open>TypeError\<close> for a naive
  against an aware one.
\<close>

fun datetime_lt :: "datetime \<Rightarrow> datetime \<Rightarrow> error + bool" where
  "datetime_lt (Aware a) (Aware b) = Inr (a < b)"
| "datetime_lt (Naive a) (Naive b) = Inr (a < b)"
| "datetime_lt a b = Inl (TypeError ''can't compare offset-naive and offset-aware datetimes'')"

text \<open>
  The text of a timestamp field, up to what the store does with it: \<open>Empty\<close> is the empty
  string, \<open>Iso d\<close> a text that \<^verbatim>\<open>datetime.fromisoformat\<close> parses to \<open>d\<close> (as
  \<^verbatim>\<open>d.isoformat()\<close> is), \<open>Garbled\<close> any other non-empty text, which
  \<^verbatim>\<open>fromisoformat\<close> rejects.
\<close>

datatype stamp = Empty | Iso datetime | Garbled

text \<open>The truth value of an \<^verbatim>\<open>Optional[str]\<close>: \<^verbatim>\<open>None\<close> and the empty string are false.\<close>

fun truthy :: "stamp option \<Rightarrow> bool" where
  "truthy None = False"
| "truthy (Some Empty) = False"
| "truthy (Some (Iso d)) = True"
| "truthy (Some Garbled) = True"

text \<open>
  \<^verbatim>\<open>auth.StoredKey\<close>. The three fields that \<^verbatim>\<open>Principal\<close> has too carry the prefix
  \<open>key_\<close> here.
\<close>

record stored_key =
  key_id :: string
  token_hmac :: string
  key_principal_id :: string
  key_capabilities :: "string list"
  key_constraints :: "(string \<times> json) list"
  created_at :: stamp
  expires_at :: "stamp option"
  revoked_at :: "stamp option"
  last_used_at :: "stamp option"

text \<open>
  The JSON file of the store, as \<^verbatim>\<open>_read\<close> finds it: \<open>Store ks\<close> is a file that parses,
  with \<open>ks\<close> the list \<^verbatim>\<open>db["keys"]\<close>; \<open>Damaged\<close> is a file whose text is no JSON (an empty
  file, or a text cut short), on which \<^verbatim>\<open>json.loads\<close> raises.
\<close>

datatype store_file = Store "stored_key list" | Damaged

text \<open>
  What \<^verbatim>\<open>Path.write_text\<close> does when \<^verbatim>\<open>_write\<close> calls it. It opens the file with mode
  \<^verbatim>\<open>'w'\<close>, which truncates it, and then writes the text:
  \<^item> \<open>Written\<close>: the new text replaces the old one;
  \<^item> \<open>OpenFails\<close>: the open raises \<^verbatim>\<open>OSError\<close> (the file is read-only, say) and the file
    keeps its content;
  \<^item> \<open>WriteFails\<close>: \<^verbatim>\<open>OSError\<close> is raised after the open (the disk is full, say), and
    the file is left empty or with a text cut short.
\<close>

datatype write_outcome = Written | OpenFails | WriteFails

text \<open>
  What one operation of the store finds around it: the value of the environment variable
  \<^verbatim>\<open>DYNAMIC_MCP_APIKEY_HMAC_SECRET\<close> (\<open>None\<close> when unset), the clock, as the readings
  that the successive calls of \<^verbatim>\<open>_utcnow()\<close> in the operation return (the first call
  reads \<open>clock e 0\<close>), and the outcome of \<^verbatim>\<open>_write\<close> if the operation writes.
\<close>

record env =
  hmac_secret_env :: "string option"
  clock :: "nat \<Rightarrow> int"
  disk :: write_outcome

text \<open>\<^verbatim>\<open>_utcnow()\<close>, called for the \<open>n\<close>-th time in the operation (counted from 0).\<close>

definition utcnow :: "env \<Rightarrow> nat \<Rightarrow> datetime" where
  "utcnow e n = Aware (clock e n)"

text \<open>\<^verbatim>\<open>_hmac_secret\<close>: \<^verbatim>\<open>os.getenv(..., "")\<close>, and an empty value raises.\<close>

definition hmac_secret :: "env \<Rightarrow> error + string" where
  "hmac_secret e =
     (let s = (case hmac_secret_env e of None \<Rightarrow> [] | Some v \<Rightarrow> v)
      in if s = [] then
           Inl (RuntimeError ''DYNAMIC_MCP_APIKEY_HMAC_SECRET must be set for apikey auth mode.'')
         else Inr s)"

text \<open>
  \<^verbatim>\<open>_hmac_digest\<close>. HMAC-SHA256 is the standard library's; it is the parameter
  \<open>hmac_sha256\<close>, from the key and the message to the hexadecimal digest.
\<close>

type_synonym hmac = "string \<Rightarrow> string \<Rightarrow> string"

definition hmac_digest :: "hmac \<Rightarrow> string \<Rightarrow> string \<Rightarrow> string" where
  "hmac_digest hmac_sha256 token secret = hmac_sha256 secret token"

text \<open>\<^verbatim>\<open>ApiKeyStore._read\<close>: the parsed file, or the exception of \<^verbatim>\<open>json.loads\<close>.\<close>

definition read_db :: "store_file \<Rightarrow> error + stored_key list" where
  "read_db f = (case f of Store ks \<Rightarrow> Inr ks | Damaged \<Rightarrow> Inl JSONDecodeError)"

text \<open>
  \<^verbatim>\<open>ApiKeyStore._write\<close> of the list \<open>db\<close> over the file \<open>f\<close>: whether it returned or
  raised, and the file afterwards.
\<close>

definition write_db :: "env \<Rightarrow> store_file \<Rightarrow> stored_key list \<Rightarrow> (error + unit) \<times> store_file" where
  "write_db e f db =
     (case disk e of
        Written \<Rightarrow> (Inr (), Store db)
      | OpenFails \<Rightarrow> (Inl OSError, f)
      | WriteFails \<Rightarrow> (Inl OSError, Damaged))"

text \<open>
  \<^verbatim>\<open>ApiKeyStore.mint_key\<close>. The two draws from \<^verbatim>\<open>secrets.token_urlsafe\<close> are the inputs
  \<open>urlsafe32\<close> and \<open>urlsafe10\<close>; the optional arguments are \<open>None\<close> when not given.
  Returns the raw token or the exception, and the file afterwards.
\<close>

definition mint_key ::
  "hmac \<Rightarrow> env \<Rightarrow> store_file \<Rightarrow> string \<Rightarrow> string \<Rightarrow> string \<Rightarrow> string list \<Rightarrow>
   (string \<times> json) list option \<Rightarrow> datetime option \<Rightarrow> string option \<Rightarrow>
   (error + string) \<times> store_file" where
  "mint_key hmac_sha256 e f urlsafe32 urlsafe10 pid caps cons exp prefix =
     (let token = (case prefix of None \<Rightarrow> ''mcp_live_'' | Some pre \<Rightarrow> pre) @ urlsafe32 in
      case hmac_secret e of
        Inl err \<Rightarrow> (Inl err, f)
      | Inr secret \<Rightarrow>
          (let rec = \<lparr> key_id = ''k_'' @ urlsafe10,
                       token_hmac = hmac_digest hmac_sha256 token secret,
                       key_principal_id = pid,
                       key_capabilities = caps,
                       key_constraints = opt_list cons,
                       created_at = Iso (utcnow e 0),
                       expires_at = map_option Iso exp,
                       revoked_at = None,
                       last_used_at = None \<rparr>
           in case read_db f of
                Inl err \<Rightarrow> (Inl err, f)
              | Inr db \<Rightarrow>
                  (case write_db e f (db @ [rec]) of
                     (Inl err, f') \<Rightarrow> (Inl err, f')
                   | (Inr u, f') \<Rightarrow> (Inr token, f'))))"

text \<open>
  The loop of \<^verbatim>\<open>ApiKeyStore.revoke\<close>: it visits every record in order and stamps each one
  that has the digest and no truthy \<^verbatim>\<open>revoked_at\<close> with a reading of the clock of its
  own (\<open>n\<close> counts the readings taken so far), and reports whether it stamped any.
\<close>

fun revoke_loop ::
  "string \<Rightarrow> (nat \<Rightarrow> int) \<Rightarrow> nat \<Rightarrow> stored_key list \<Rightarrow> bool \<times> stored_key list" where
  "revoke_loop h clk n [] = (False, [])"
| "revoke_loop h clk n (k # ks) =
     (if token_hmac k = h \<and> \<not> truthy (revoked_at k)
      then (True, k\<lparr>revoked_at := Some (Iso (Aware (clk n)))\<rparr> #
                  snd (revoke_loop h clk (Suc n) ks))
      else (let (changed, ks') = revoke_loop h clk n ks in (changed, k # ks')))"

text \<open>
  \<^verbatim>\<open>ApiKeyStore.revoke\<close>: the flag or the exception, and the file afterwards. The file is
  written only when a record was stamped.
\<close>

definition revoke ::
  "hmac \<Rightarrow> env \<Rightarrow> store_file \<Rightarrow> string \<Rightarrow> (error + bool) \<times> store_file" where
  "revoke hmac_sha256 e f token =
     (case hmac_secret e of
        Inl err \<Rightarrow> (Inl err, f)
      | Inr secret \<Rightarrow>
          (case read_db f of
             Inl err \<Rightarrow> (Inl err, f)
           | Inr db \<Rightarrow>
               (let (changed, db') =
                      revoke_loop (hmac_digest hmac_sha256 token secret) (clock e) 0 db
                in if changed then
                     (case write_db e f db' of
                        (Inl err, f') \<Rightarrow> (Inl err, f')
                      | (Inr u, f') \<Rightarrow> (Inr True, f'))
                   else (Inr False, f))))"

text \<open>
  The checks \<^verbatim>\<open>ApiKeyStore.resolve\<close> makes on the record whose digest matches, in the
  order of the source: \<open>None\<close> when the record passes.
\<close>

definition key_checks :: "datetime \<Rightarrow> stored_key \<Rightarrow> error option" where
  "key_checks now k =
     (if truthy (revoked_at k) then Some (Unauthorized ''API key revoked'')
      else if truthy (expires_at k) then
        (case expires_at k of
           Some (Iso exp_dt) \<Rightarrow>
             (case datetime_lt exp_dt now of
                Inl err \<Rightarrow> Some err
              | Inr True \<Rightarrow> Some (Unauthorized ''API key expired'')
              | Inr False \<Rightarrow> None)
         | _ \<Rightarrow> Some (Unauthorized ''API key invalid expiry''))
      else None)"

definition principal_of :: "stored_key \<Rightarrow> principal" where
  "principal_of k =
     \<lparr> principal_id = key_principal_id k, capabilities = key_capabilities k,
       constraints = key_constraints k, disabled = False \<rparr>"

text \<open>
  The loop of \<^verbatim>\<open>ApiKeyStore.resolve\<close>: records with another digest are skipped, and the
  first one with the digest ends the loop, with an exception or with the principal and
  the list in which that record has its \<^verbatim>\<open>last_used_at\<close> set. Running off the end is the
  final \<^verbatim>\<open>raise\<close>.
\<close>

fun resolve_loop :: "string \<Rightarrow> datetime \<Rightarrow> stored_key list \<Rightarrow> error + principal \<times> stored_key list" where
  "resolve_loop h now [] = Inl (Unauthorized ''Invalid API key'')"
| "resolve_loop h now (k # ks) =
     (if token_hmac k \<noteq> h then
        (case resolve_loop h now ks of
           Inl err \<Rightarrow> Inl err
         | Inr (p, ks') \<Rightarrow> Inr (p, k # ks'))
      else
        (case key_checks now k of
           Some err \<Rightarrow> Inl err
         | None \<Rightarrow> Inr (principal_of k, k\<lparr>last_used_at := Some (Iso now)\<rparr> # ks)))"

text \<open>
  \<^verbatim>\<open>ApiKeyStore.resolve\<close>: the principal or the exception, and the file afterwards. The
  write of \<^verbatim>\<open>last_used_at\<close> is inside \<^verbatim>\<open>try ... except Exception: pass\<close>: whatever its
  outcome, and whatever it leaves in the file, the principal is returned.
\<close>

definition resolve ::
  "hmac \<Rightarrow> env \<Rightarrow> store_file \<Rightarrow> string \<Rightarrow> (error + principal) \<times> store_file" where
  "resolve hmac_sha256 e f token =
     (case hmac_secret e of
        Inl err \<Rightarrow> (Inl err, f)
      | Inr secret \<Rightarrow>
          (case read_db f of
             Inl err \<Rightarrow> (Inl err, f)
           | Inr db \<Rightarrow>
               (case resolve_loop (hmac_digest hmac_sha256 token secret) (utcnow e 0) db of
                  Inl err \<Rightarrow> (Inl err, f)
                | Inr (p, db') \<Rightarrow> (Inr p, snd (write_db e f db')))))"

section \<open>Authentication resolver: delegated trust\<close>

text \<open>Python's \<^verbatim>\<open>s.split(sep)\<close> for a separator of one character.\<close>

fun split :: "char \<Rightarrow> string \<Rightarrow> string list" where
  "split sep [] = [[]]"
| "split sep (c # cs) =
     (if c = sep then [] # split sep cs
      else (case split sep cs of
              [] \<Rightarrow> [[c]]
            | w # ws \<Rightarrow> (c # w) # ws))"

text \<open>\<^verbatim>\<open>request.headers.get(name, "")\<close>; the headers are a map from the header's name.\<close>

definition header :: "(string \<rightharpoonup> string) \<Rightarrow> string \<Rightarrow> string" where
  "header headers h = (case headers h of None \<Rightarrow> [] | Some v \<Rightarrow> v)"

text \<open>
  \<^verbatim>\<open>_principal_external\<close>. \<^verbatim>\<open>json.loads\<close> is the standard library's; it is the parameter
  \<open>json_loads\<close>, \<open>None\<close> where it raises.
\<close>

definition principal_external ::
  "(string \<Rightarrow> json option) \<Rightarrow> (string \<rightharpoonup> string) \<Rightarrow> error + principal" where
  "principal_external json_loads headers =
     (let pid = strip (header headers ''X-MCP-Principal'') in
      if pid = [] then Inl (Unauthorized ''Missing X-MCP-Principal'')
      else
        (let caps_raw = strip (header headers ''X-MCP-Capabilities'');
             caps = filter (\<lambda>c. c \<noteq> []) (map strip (split CHR '','' caps_raw));
             cons_raw = strip (header headers ''X-MCP-Constraints'')
         in if cons_raw \<noteq> [] then
              (case json_loads cons_raw of
                 None \<Rightarrow> Inl (Unauthorized ''Invalid X-MCP-Constraints'')
               | Some (JObj d) \<Rightarrow>
                   Inr \<lparr> principal_id = pid, capabilities = caps, constraints = d, disabled = False \<rparr>
               | Some _ \<Rightarrow>
                   Inr \<lparr> principal_id = pid, capabilities = caps, constraints = [], disabled = False \<rparr>)
            else Inr \<lparr> principal_id = pid, capabilities = caps, constraints = [], disabled = False \<rparr>))"

section \<open>Inputs of the evaluated examples\<close>

text \<open>
  A handler that counts its invocations in the state and returns the count before the
  call: \<^verbatim>\<open>def tool(...): global n; n += 1; return n - 1\<close>, with the given parameters.
\<close>

definition counting_handler :: "'ty param list \<Rightarrow> ('ty, nat) handler" where
  "counting_handler ps =
     \<lparr> fn_name = ''tool'', fn_doc = None, parameters = ps,
       run = (\<lambda>kwargs n. (Inr (JInt (int n)), Suc n)) \<rparr>"

text \<open>A parameter with no annotation and no default, as \<^verbatim>\<open>x\<close> in \<^verbatim>\<open>def tool(x): ...\<close>.\<close>

definition plain :: "string \<Rightarrow> 'ty param" where
  "plain n = \<lparr> pname = n, annotation = None, default_of = None \<rparr>"

text \<open>
  A parameter with an annotation and no default; the examples have one annotation only,
  and \<open>reject_type\<close> is a validator that no value passes.
\<close>

definition typed :: "string \<Rightarrow> unit param" where
  "typed n = \<lparr> pname = n, annotation = Some (), default_of = None \<rparr>"

definition reject_type :: "unit type_validator" where
  "reject_type ty v = None"

definition alice :: principal where
  "alice = \<lparr> principal_id = ''alice'', capabilities = [''tools:call''], constraints = [],
             disabled = False \<rparr>"

text \<open>
  A stand-in for HMAC-SHA256 in the evaluated examples. The store uses a digest only
  through equality with the digests of its records.
\<close>

definition example_hmac :: hmac where
  "example_hmac secret msg = secret @ '':'' @ msg"

text \<open>A stand-in for \<^verbatim>\<open>json.loads\<close>: it parses the empty object and rejects every other text.\<close>

definition example_json_loads :: "string \<Rightarrow> json option" where
  "example_json_loads s = (if s = ''{}'' then Some (JObj []) else None)"

text \<open>
  An environment with the secret set, a clock that reads 1000, 1001, ... and a store that
  can be written.
\<close>

definition example_env :: env where
  "example_env =
     \<lparr> hmac_secret_env = Some ''s3cret'', clock = (\<lambda>n. 1000 + int n), disk = Written \<rparr>"

text \<open>
  The record of a credential minted in \<open>example_env\<close> for the given token: no expiry,
  not revoked, never used.
\<close>

definition example_key :: "string \<Rightarrow> stored_key" where
  "example_key token =
     \<lparr> key_id = ''k_'' @ token, token_hmac = example_hmac ''s3cret'' token,
       key_principal_id = ''demo'', key_capabilities = [''tools:call''],
       key_constraints = [], created_at = Iso (Aware 0), expires_at = None,
       revoked_at = None, last_used_at = None \<rparr>"

section \<open>Capability matcher: properties\<close>

lemma has_cap_iff:
  "has_cap fnmatch caps R \<longleftrightarrow>
     (\<exists>P \<in> set caps. P = ''*'' \<or> P = ''admin:*'' \<or> fnmatch R P \<or> fnmatch P R)"
  by (induction caps) auto

lemma any_required_iff:
  "any_required fnmatch p reqs \<longleftrightarrow> (\<exists>req \<in> set reqs. principal_has fnmatch p req)"
  by (induction reqs) auto

lemma any_tag_iff:
  "any_tag fnmatch p tgs \<longleftrightarrow> (\<exists>tag \<in> set tgs. principal_has fnmatch p (''tag:'' @ tag))"
  by (induction tgs) auto

lemma required_caps_register:
  "required_caps (fst (register tools h n d rc tg)) \<noteq> []"
  by (simp add: register_def Let_def or_else_def)

text \<open>
  C1. The matcher grants a requested capability \<open>R\<close> exactly when some capability \<open>P\<close> of
  the principal is \<open>*\<close> or \<open>admin:*\<close>, or \<open>R\<close> matches the pattern \<open>P\<close>, or \<open>P\<close> matches
  the pattern \<open>R\<close>, whatever \<open>fnmatch\<close> computes. A principal whose only capability is
  \<open>*\<close> is granted every requested capability, every action, and every tool that
  \<open>register\<close> returns. With the glob syntax of the spec, \<open>tool:math:*\<close> grants
  \<open>tool:math:add\<close>, and by the check in the other direction \<open>tool:math:add\<close> grants
  \<open>tool:math:*\<close>.
\<close>

theorem principal_has_iff:
  "(principal_has fnmatch p R \<longleftrightarrow>
      (\<exists>P \<in> set (capabilities p).
          P = ''*'' \<or> P = ''admin:*'' \<or> fnmatch R P \<or> fnmatch P R))
   \<and> principal_has fnmatch (p\<lparr>capabilities := [''*'']\<rparr>) R
   \<and> authorize_action fnmatch (p\<lparr>capabilities := [''*'']\<rparr>) R = Inr ()
   \<and> enforce_tool fnmatch (p\<lparr>capabilities := [''*'']\<rparr>)
        (fst (register tools h n d rc tg)) = Inr ()
   \<and> principal_has glob (p\<lparr>capabilities := [''tool:math:*'']\<rparr>) ''tool:math:add''
   \<and> principal_has glob (p\<lparr>capabilities := [''tool:math:add'']\<rparr>) ''tool:math:*''"
proof -
  let ?star = "p\<lparr>capabilities := [''*'']\<rparr>"
  let ?tool = "fst (register tools h n d rc tg)"
  have star: "principal_has fnmatch ?star x" for x
    by (simp add: principal_has_def)
  obtain req reqs where "required_caps ?tool = req # reqs"
    using required_caps_register [of tools h n d rc tg]
    by (cases "required_caps ?tool") auto
  then have "enforce_tool fnmatch ?star ?tool = Inr ()"
    using star by (simp add: enforce_tool_def)
  moreover have "principal_has glob (p\<lparr>capabilities := [''tool:math:*'']\<rparr>) ''tool:math:add''"
    by (simp add: principal_has_def)
  moreover have "principal_has glob (p\<lparr>capabilities := [''tool:math:add'']\<rparr>) ''tool:math:*''"
    by (simp add: principal_has_def)
  ultimately show ?thesis
    using star by (simp add: principal_has_def has_cap_iff authorize_action_def)
qed

text \<open>
  C3. \<open>enforce_tool\<close> succeeds exactly when the principal has one of the tool's required
  capabilities or, for one of its tags \<open>T\<close>, the capability \<open>tag:T\<close>; otherwise it raises
  Forbidden. A tool with tags \<open>[safe]\<close> and required capabilities \<open>[tool:x]\<close> is
  authorized for a principal that holds only \<open>tag:safe\<close>, which does not give it
  \<open>tool:x\<close>.
\<close>

theorem enforce_tool_iff:
  "enforce_tool fnmatch p tool =
     (if (\<exists>req \<in> set (required_caps tool). principal_has fnmatch p req) \<or>
         (\<exists>tag \<in> set (tags tool). principal_has fnmatch p (''tag:'' @ tag))
      then Inr () else Inl (Forbidden ''Not authorized for this tool''))
   \<and> enforce_tool glob (p\<lparr>capabilities := [''tag:safe'']\<rparr>)
        (tool\<lparr>tags := [''safe''], required_caps := [''tool:x'']\<rparr>) = Inr ()
   \<and> \<not> principal_has glob (p\<lparr>capabilities := [''tag:safe'']\<rparr>) ''tool:x''"
  by (simp add: enforce_tool_def any_required_iff any_tag_iff principal_has_def)

section \<open>Tool registry: properties\<close>

lemma validate_fields_missing:
  "(f, ann, None) \<in> set flds \<Longrightarrow> args f = None \<Longrightarrow>
   FieldError f Missing \<in> set (fst (validate_fields vt flds args))"
  by (induction flds) (auto split: prod.splits option.splits)

lemma validate_fields_invalid:
  "(f, ann, d) \<in> set flds \<Longrightarrow> args f = Some v \<Longrightarrow> check_type vt ann v = None \<Longrightarrow>
   FieldError f Invalid \<in> set (fst (validate_fields vt flds args))"
  by (induction flds) (auto split: prod.splits option.splits)

lemma validate_fields_cong:
  "(\<forall>f \<in> fst ` set flds. args f = args' f) \<Longrightarrow>
   validate_fields vt flds args = validate_fields vt flds args'"
  by (induction flds) (auto split: prod.splits option.splits)

lemma call_invalid:
  assumes "e \<in> set (fst (validate_fields vt (input_model tool) args))"
  shows "call vt tool args p w =
           (Inl (ValidationError (fst (validate_fields vt (input_model tool) args))), w)"
  using assms
  by (cases "validate_fields vt (input_model tool) args")
     (auto simp: call_def validate_input_def split: list.splits)

text \<open>
  C2 (the code at the failing input). \<^verbatim>\<open>def tool(x, principal): ...\<close> is registered with
  no metadata. \<open>register\<close> skips only the name \<open>user\<close>, so \<open>principal\<close> stays in the
  input contract as a required field, and a call that supplies \<open>x\<close> alone is rejected
  for the missing \<open>principal\<close> before the handler runs (the counter stays at 0): the
  injection of the last step of \<open>call\<close> is never reached.
\<close>

theorem register_keeps_principal_field:
  "input_model (fst (register Map.empty
       (counting_handler [plain ''x'', plain ''principal'' :: unit param]) None None None None))
     = [(''x'', None, None), (''principal'', None, None)]
   \<and> input_model (fst (register Map.empty
       (counting_handler [plain ''x'', plain ''user'' :: unit param]) None None None None))
     = [(''x'', None, None)]
   \<and> call reject_type
       (fst (register Map.empty
          (counting_handler [plain ''x'', plain ''principal'']) None None None None))
       [''x'' \<mapsto> JInt 1] alice 0
     = (Inl (ValidationError [FieldError ''principal'' Missing]), 0)"
proof -
  let ?t = "fst (register Map.empty
               (counting_handler [plain ''x'', plain ''principal'' :: unit param])
               None None None None)"
  have m: "input_model ?t = [(''x'', None, None), (''principal'', None, None)]"
    by (simp add: register_def counting_handler_def plain_def Let_def)
  have u: "input_model (fst (register Map.empty
               (counting_handler [plain ''x'', plain ''user'' :: unit param])
               None None None None)) = [(''x'', None, None)]"
    by (simp add: register_def counting_handler_def plain_def Let_def)
  have "validate_fields reject_type (input_model ?t) [''x'' \<mapsto> JInt 1]
          = ([FieldError ''principal'' Missing], [(''x'', JInt 1)])"
    unfolding m by (simp add: check_type_def)
  then have "call reject_type ?t [''x'' \<mapsto> JInt 1] alice 0
          = (Inl (ValidationError [FieldError ''principal'' Missing]), 0)"
    by (simp add: call_def validate_input_def)
  with m u show ?thesis by blast
qed

text \<open>
  C4 (counterexample to the claim as stated). \<^verbatim>\<open>def tool(a): ...\<close> is called with
  \<open>a\<close> and with a field \<open>zzz\<close> that the input contract does not declare. The call is
  not rejected: the handler runs (the counter goes from 0 to 1) and its value comes back
  in the envelope.
\<close>

theorem call_unknown_field_counterexample:
  "call reject_type
     (fst (register Map.empty (counting_handler [plain ''a'']) None None None None))
     [''a'' \<mapsto> JInt 1, ''zzz'' \<mapsto> JInt 2] alice 0
   = (Inr [(''value'', JInt 0)], 1)"
proof -
  let ?t = "fst (register Map.empty (counting_handler [plain ''a'' :: unit param])
               None None None None)"
  have m: "input_model ?t = [(''a'', None, None)]"
    by (simp add: register_def counting_handler_def plain_def Let_def)
  have r: "run (fn ?t) = (\<lambda>kwargs n. (Inr (JInt (int n)), Suc n))"
    by (simp add: register_def counting_handler_def Let_def)
  have "validate_fields reject_type (input_model ?t) [''a'' \<mapsto> JInt 1, ''zzz'' \<mapsto> JInt 2]
          = ([], [(''a'', JInt 1)])"
    unfolding m by (simp add: check_type_def)
  then show ?thesis
    by (simp add: call_def validate_input_def r)
qed

text \<open>
  C4 (amended). \<open>call\<close> validates the arguments against the tool's input contract before
  it invokes the handler. Arguments that name no field of the contract are ignored: two
  argument mappings that agree on the declared fields give the same outcome. A mapping
  that lacks a required field \<open>f\<close> fails with ValidationError, whose error list has the
  entry for the missing \<open>f\<close>; a mapping whose value for a field \<open>g\<close> does not validate
  against the declared type of \<open>g\<close> fails with ValidationError, whose error list has the
  entry for the invalid \<open>g\<close>. In both failures the handler's state is untouched.
\<close>

theorem call_validation:
  "((\<forall>x \<in> fst ` set (input_model tool). args x = args' x) \<longrightarrow>
      call vt tool args p w = call vt tool args' p w)
   \<and> ((f, ann, None) \<in> set (input_model tool) \<and> args f = None \<longrightarrow>
        (\<exists>errs. call vt tool args p w = (Inl (ValidationError errs), w) \<and>
                FieldError f Missing \<in> set errs))
   \<and> ((g, Some ty, d) \<in> set (input_model tool) \<and> args g = Some v \<and> vt ty v = None \<longrightarrow>
        (\<exists>errs. call vt tool args p w = (Inl (ValidationError errs), w) \<and>
                FieldError g Invalid \<in> set errs))"
proof (intro conjI impI)
  assume "\<forall>x \<in> fst ` set (input_model tool). args x = args' x"
  then have "validate_fields vt (input_model tool) args =
             validate_fields vt (input_model tool) args'"
    by (rule validate_fields_cong)
  then show "call vt tool args p w = call vt tool args' p w"
    by (simp add: call_def validate_input_def)
next
  assume "(f, ann, None) \<in> set (input_model tool) \<and> args f = None"
  then have m: "FieldError f Missing \<in> set (fst (validate_fields vt (input_model tool) args))"
    by (auto intro: validate_fields_missing)
  from call_invalid [OF m] m
  show "\<exists>errs. call vt tool args p w = (Inl (ValidationError errs), w) \<and>
          FieldError f Missing \<in> set errs"
    by blast
next
  assume "(g, Some ty, d) \<in> set (input_model tool) \<and> args g = Some v \<and> vt ty v = None"
  then have m: "FieldError g Invalid \<in> set (fst (validate_fields vt (input_model tool) args))"
    by (auto intro: validate_fields_invalid simp: check_type_def)
  from call_invalid [OF m] m
  show "\<exists>errs. call vt tool args p w = (Inl (ValidationError errs), w) \<and>
          FieldError g Invalid \<in> set errs"
    by blast
qed

text \<open>
  The amended C4 at \<^verbatim>\<open>def tool(a, b: T): ...\<close>, called once with \<open>b\<close> and the undeclared
  \<open>zzz\<close> and once with \<open>b\<close> alone, \<open>b\<close> of the wrong type both times: the outcomes are
  equal, and the error list names the missing \<open>a\<close> and the invalid \<open>b\<close>.
\<close>

theorem call_validation_witness:
  "call reject_type
      (fst (register Map.empty (counting_handler [plain ''a'', typed ''b'']) None None None None))
      [''b'' \<mapsto> JStr ''x'', ''zzz'' \<mapsto> JInt 2] alice 0
    = call reject_type
      (fst (register Map.empty (counting_handler [plain ''a'', typed ''b'']) None None None None))
      [''b'' \<mapsto> JStr ''x''] alice 0
   \<and> (\<exists>errs. call reject_type
         (fst (register Map.empty (counting_handler [plain ''a'', typed ''b'']) None None None None))
         [''b'' \<mapsto> JStr ''x'', ''zzz'' \<mapsto> JInt 2] alice 0 = (Inl (ValidationError errs), 0) \<and>
         FieldError ''a'' Missing \<in> set errs)
   \<and> (\<exists>errs. call reject_type
         (fst (register Map.empty (counting_handler [plain ''a'', typed ''b'']) None None None None))
         [''b'' \<mapsto> JStr ''x'', ''zzz'' \<mapsto> JInt 2] alice 0 = (Inl (ValidationError errs), 0) \<and>
         FieldError ''b'' Invalid \<in> set errs)"
proof -
  let ?t = "fst (register Map.empty (counting_handler [plain ''a'', typed ''b''])
                   None None None None)"
  let ?args = "[''b'' \<mapsto> JStr ''x'', ''zzz'' \<mapsto> JInt 2]"
  let ?args' = "[''b'' \<mapsto> JStr ''x'']"
  have m: "input_model ?t = [(''a'', None, None), (''b'', Some (), None)]"
    by (simp add: register_def counting_handler_def plain_def typed_def Let_def)
  have h1: "\<forall>x \<in> fst ` set (input_model ?t). ?args x = ?args' x"
    by (simp add: m)
  have h2: "(''a'', None, None) \<in> set (input_model ?t) \<and> ?args ''a'' = None"
    by (simp add: m)
  have h3: "(''b'', Some (), None) \<in> set (input_model ?t) \<and> ?args ''b'' = Some (JStr ''x'') \<and>
            reject_type () (JStr ''x'') = None"
    by (simp add: m reject_type_def)
  from call_validation [of ?t ?args ?args' reject_type alice 0 "''a''" None "''b''"
      "()" None "JStr ''x''"] h1 h2 h3
  show ?thesis by blast
qed

text \<open>
  C8. When the input contract of a tool has a required field \<open>f\<close> and the argument
  mapping has no entry for \<open>f\<close>, \<open>call\<close> fails with ValidationError, with the entry for
  the missing \<open>f\<close> in its error list, and the handler is not invoked: whatever handler
  stands in the tool definition, the outcome is the same error and the state the handler
  could change is the state from before the call.
\<close>

theorem call_missing_required:
  assumes "(f, ann, None) \<in> set (input_model tool)" and "args f = None"
  shows "\<exists>errs. FieldError f Missing \<in> set errs \<and>
           (\<forall>h. call vt (tool\<lparr>fn := h\<rparr>) args p w = (Inl (ValidationError errs), w))"
proof -
  let ?errs = "fst (validate_fields vt (input_model tool) args)"
  have m: "FieldError f Missing \<in> set ?errs"
    using assms by (rule validate_fields_missing)
  have "call vt (tool\<lparr>fn := h\<rparr>) args p w = (Inl (ValidationError ?errs), w)" for h
    using m call_invalid [of "FieldError f Missing" vt "tool\<lparr>fn := h\<rparr>" args p w] by simp
  with m show ?thesis by blast
qed

text \<open>
  C8 at \<^verbatim>\<open>def tool(a, b): ...\<close> as \<open>register\<close> stores it, called with \<open>a\<close> alone: \<open>b\<close> is
  a required field of the contract and is missing.
\<close>

theorem call_missing_required_witness:
  "(''b'', None, None) \<in> set (input_model (fst (register Map.empty
        (counting_handler [plain ''a'', plain ''b'' :: unit param]) None None None None)))
   \<and> [''a'' \<mapsto> JInt 1] ''b'' = None
   \<and> (\<exists>errs. FieldError ''b'' Missing \<in> set errs \<and>
         (\<forall>h. call reject_type
                 ((fst (register Map.empty
                     (counting_handler [plain ''a'', plain ''b'']) None None None None))
                  \<lparr>fn := h\<rparr>)
                 [''a'' \<mapsto> JInt 1] alice (0::nat)
               = (Inl (ValidationError errs), 0)))"
proof -
  let ?t = "fst (register Map.empty (counting_handler [plain ''a'', plain ''b'' :: unit param])
                   None None None None)"
  have a: "(''b'', None, None) \<in> set (input_model ?t)"
    by (simp add: register_def counting_handler_def plain_def Let_def)
  have b: "[''a'' \<mapsto> JInt 1] ''b'' = None" by simp
  from call_missing_required [of "''b''" None ?t "[''a'' \<mapsto> JInt 1]" reject_type alice "0::nat",
      OF a b] a b
  show ?thesis by blast
qed

section \<open>Credential store: properties\<close>

lemma hmac_secret_set:
  "hmac_secret_env e = Some secret \<Longrightarrow> secret \<noteq> [] \<Longrightarrow> hmac_secret e = Inr secret"
  by (simp add: hmac_secret_def)

lemma resolve_loop_none:
  "find (\<lambda>k. token_hmac k = h) db = None \<Longrightarrow>
   resolve_loop h now db = Inl (Unauthorized ''Invalid API key'')"
  by (induction db) (auto split: if_splits)

lemma resolve_loop_rejected:
  "find (\<lambda>k. token_hmac k = h) db = Some k \<Longrightarrow> key_checks now k = Some err \<Longrightarrow>
   resolve_loop h now db = Inl err"
  by (induction db) (auto split: if_splits)

lemma resolve_loop_accepted:
  "find (\<lambda>k. token_hmac k = h) db = Some k \<Longrightarrow> key_checks now k = None \<Longrightarrow>
   \<exists>ks1 ks2. db = ks1 @ k # ks2 \<and> (\<forall>x \<in> set ks1. token_hmac x \<noteq> h) \<and>
     resolve_loop h now db =
       Inr (principal_of k, ks1 @ k\<lparr>last_used_at := Some (Iso now)\<rparr> # ks2)"
proof (induction db)
  case Nil
  then show ?case by simp
next
  case (Cons a db)
  show ?case
  proof (cases "token_hmac a = h")
    case True
    with Cons.prems have "a = k" by simp
    with True Cons.prems show ?thesis
      by (intro exI [of _ "[]"] exI [of _ db]) simp
  next
    case False
    with Cons.prems have "find (\<lambda>k. token_hmac k = h) db = Some k" by simp
    from Cons.IH [OF this Cons.prems(2)] obtain ks1 ks2 where
      *: "db = ks1 @ k # ks2" "\<forall>x \<in> set ks1. token_hmac x \<noteq> h"
         "resolve_loop h now db = Inr (principal_of k, ks1 @ k\<lparr>last_used_at := Some (Iso now)\<rparr> # ks2)"
      by blast
    with False show ?thesis
      by (intro exI [of _ "a # ks1"] exI [of _ ks2]) simp
  qed
qed

lemma key_checks_revoked:
  "truthy (revoked_at k) \<Longrightarrow> key_checks now k = Some (Unauthorized ''API key revoked'')"
  by (simp add: key_checks_def)

lemma key_checks_garbled:
  "\<not> truthy (revoked_at k) \<Longrightarrow> expires_at k = Some Garbled \<Longrightarrow>
   key_checks now k = Some (Unauthorized ''API key invalid expiry'')"
  by (simp add: key_checks_def)

lemma key_checks_expired:
  "\<not> truthy (revoked_at k) \<Longrightarrow> expires_at k = Some (Iso (Aware t)) \<Longrightarrow> t < n \<Longrightarrow>
   key_checks (Aware n) k = Some (Unauthorized ''API key expired'')"
  by (simp add: key_checks_def)

lemma key_checks_pass:
  "\<not> truthy (revoked_at k) \<Longrightarrow>
   \<not> truthy (expires_at k) \<or> (\<exists>t. expires_at k = Some (Iso (Aware t)) \<and> n \<le> t) \<Longrightarrow>
   key_checks (Aware n) k = None"
  by (auto simp: key_checks_def)

lemma resolve_unfold:
  assumes "hmac_secret_env e = Some secret" and "secret \<noteq> []"
  shows "resolve H e (Store db) token =
           (case resolve_loop (H secret token) (Aware (clock e 0)) db of
              Inl err \<Rightarrow> (Inl err, Store db)
            | Inr (p, db') \<Rightarrow> (Inr p, snd (write_db e (Store db) db')))"
  by (simp add: resolve_def hmac_secret_set [OF assms] hmac_digest_def utcnow_def read_db_def
      split: sum.splits)

lemma resolve_accepted:
  assumes "hmac_secret_env e = Some secret" and "secret \<noteq> []"
    and f: "find (\<lambda>k. token_hmac k = H secret token) db = Some k"
    and nr: "\<not> truthy (revoked_at k)"
    and ex: "\<not> truthy (expires_at k) \<or>
             (\<exists>t'. expires_at k = Some (Iso (Aware t')) \<and> clock e 0 \<le> t')"
  shows "\<exists>ks1 ks2. db = ks1 @ k # ks2 \<and> (\<forall>x \<in> set ks1. token_hmac x \<noteq> H secret token) \<and>
           resolve H e (Store db) token =
             (Inr (principal_of k),
              snd (write_db e (Store db)
                     (ks1 @ k\<lparr>last_used_at := Some (Iso (Aware (clock e 0)))\<rparr> # ks2)))"
proof -
  have "key_checks (Aware (clock e 0)) k = None"
    using nr ex by (rule key_checks_pass)
  from resolve_loop_accepted [OF f this] obtain ks1 ks2 where
    d: "db = ks1 @ k # ks2" "\<forall>x \<in> set ks1. token_hmac x \<noteq> H secret token" and
    l: "resolve_loop (H secret token) (Aware (clock e 0)) db =
       Inr (principal_of k, ks1 @ k\<lparr>last_used_at := Some (Iso (Aware (clock e 0)))\<rparr> # ks2)"
    by blast
  have "resolve H e (Store db) token =
          (Inr (principal_of k),
           snd (write_db e (Store db)
                  (ks1 @ k\<lparr>last_used_at := Some (Iso (Aware (clock e 0)))\<rparr> # ks2)))"
    unfolding resolve_unfold [where H = H and token = token, OF assms(1,2)] l by simp
  with d show ?thesis by blast
qed

lemma example_secret: "hmac_secret example_env = Inr ''s3cret''"
  by (simp add: hmac_secret_def example_env_def)

text \<open>
  C5 (counterexample to the claim as stated). The store holds one record whose digest
  matches the token; it is not revoked, and its \<^verbatim>\<open>expires_at\<close> is a non-empty text that is
  no timestamp, so it is not a time in the past. None of the three failures of the claim
  applies, yet \<open>resolve\<close> does not return the principal: it fails with Unauthorized for
  the invalid expiry.
\<close>

theorem resolve_invalid_expiry_counterexample:
  "resolve example_hmac example_env
     (Store [(example_key ''t'')\<lparr>expires_at := Some Garbled\<rparr>]) ''t''
   = (Inl (Unauthorized ''API key invalid expiry''),
      Store [(example_key ''t'')\<lparr>expires_at := Some Garbled\<rparr>])"
  by (simp add: resolve_def example_secret hmac_digest_def read_db_def example_key_def
      key_checks_def)

text \<open>
  C5 (amended). With the secret configured, \<open>resolve\<close> on a store of records is decided
  by the first record whose digest is the keyed hash of the token:
  \<^item> there is none: Unauthorized (invalid key);
  \<^item> its \<^verbatim>\<open>revoked_at\<close> is set (not empty): Unauthorized (revoked);
  \<^item> else its \<^verbatim>\<open>expires_at\<close> is a non-empty text that is no timestamp: Unauthorized
    (invalid expiry);
  \<^item> else its \<^verbatim>\<open>expires_at\<close> is a time-zone-aware time before the current time:
    Unauthorized (expired);
  \<^item> else, its \<^verbatim>\<open>expires_at\<close> being absent, empty or a time-zone-aware time not before
    the current time: the principal built from the record's \<^verbatim>\<open>principal_id\<close>,
    \<^verbatim>\<open>capabilities\<close> and \<^verbatim>\<open>constraints\<close> with \<^verbatim>\<open>disabled=false\<close> is returned, whatever
    the outcome of the write of \<^verbatim>\<open>last_used_at\<close>; when that write succeeds, the store
    afterwards has \<^verbatim>\<open>last_used_at\<close> of that record set to the current time.
\<close>

theorem resolve_cases:
  assumes "hmac_secret_env e = Some secret" and "secret \<noteq> []"
  shows
   "(find (\<lambda>k. token_hmac k = H secret token) db = None \<longrightarrow>
       fst (resolve H e (Store db) token) = Inl (Unauthorized ''Invalid API key''))
    \<and> (find (\<lambda>k. token_hmac k = H secret token) db = Some k \<and> truthy (revoked_at k) \<longrightarrow>
         fst (resolve H e (Store db) token) = Inl (Unauthorized ''API key revoked''))
    \<and> (find (\<lambda>k. token_hmac k = H secret token) db = Some k \<and> \<not> truthy (revoked_at k) \<and>
        expires_at k = Some Garbled \<longrightarrow>
         fst (resolve H e (Store db) token) = Inl (Unauthorized ''API key invalid expiry''))
    \<and> (find (\<lambda>k. token_hmac k = H secret token) db = Some k \<and> \<not> truthy (revoked_at k) \<and>
        expires_at k = Some (Iso (Aware t)) \<and> t < clock e 0 \<longrightarrow>
         fst (resolve H e (Store db) token) = Inl (Unauthorized ''API key expired''))
    \<and> (find (\<lambda>k. token_hmac k = H secret token) db = Some k \<and> \<not> truthy (revoked_at k) \<and>
        (\<not> truthy (expires_at k) \<or>
         (\<exists>t'. expires_at k = Some (Iso (Aware t')) \<and> clock e 0 \<le> t')) \<longrightarrow>
         fst (resolve H e (Store db) token) =
           Inr \<lparr> principal_id = key_principal_id k, capabilities = key_capabilities k,
                 constraints = key_constraints k, disabled = False \<rparr>
         \<and> (disk e = Written \<longrightarrow>
              (\<exists>ks1 ks2. db = ks1 @ k # ks2 \<and>
                 (\<forall>x \<in> set ks1. token_hmac x \<noteq> H secret token) \<and>
                 snd (resolve H e (Store db) token) =
                   Store (ks1 @ k\<lparr>last_used_at := Some (Iso (Aware (clock e 0)))\<rparr> # ks2))))"
proof -
  let ?h = "H secret token"
  note r = resolve_unfold [where H = H and token = token and db = db, OF assms]
  have c1: "find (\<lambda>k. token_hmac k = ?h) db = None \<Longrightarrow>
              fst (resolve H e (Store db) token) = Inl (Unauthorized ''Invalid API key'')"
    by (simp add: r resolve_loop_none)
  have c2: "find (\<lambda>k. token_hmac k = ?h) db = Some k \<Longrightarrow> truthy (revoked_at k) \<Longrightarrow>
              fst (resolve H e (Store db) token) = Inl (Unauthorized ''API key revoked'')"
    by (simp add: r resolve_loop_rejected [OF _ key_checks_revoked])
  have c3: "find (\<lambda>k. token_hmac k = ?h) db = Some k \<Longrightarrow> \<not> truthy (revoked_at k) \<Longrightarrow>
              expires_at k = Some Garbled \<Longrightarrow>
              fst (resolve H e (Store db) token) = Inl (Unauthorized ''API key invalid expiry'')"
    by (simp add: r resolve_loop_rejected [OF _ key_checks_garbled])
  have c4: "find (\<lambda>k. token_hmac k = ?h) db = Some k \<Longrightarrow> \<not> truthy (revoked_at k) \<Longrightarrow>
              expires_at k = Some (Iso (Aware t)) \<Longrightarrow> t < clock e 0 \<Longrightarrow>
              fst (resolve H e (Store db) token) = Inl (Unauthorized ''API key expired'')"
    by (simp add: r resolve_loop_rejected [OF _ key_checks_expired])
  have c5: "fst (resolve H e (Store db) token) =
           Inr \<lparr> principal_id = key_principal_id k, capabilities = key_capabilities k,
                 constraints = key_constraints k, disabled = False \<rparr>
         \<and> (disk e = Written \<longrightarrow>
              (\<exists>ks1 ks2. db = ks1 @ k # ks2 \<and>
                 (\<forall>x \<in> set ks1. token_hmac x \<noteq> H secret token) \<and>
                 snd (resolve H e (Store db) token) =
                   Store (ks1 @ k\<lparr>last_used_at := Some (Iso (Aware (clock e 0)))\<rparr> # ks2)))"
    if f: "find (\<lambda>k. token_hmac k = ?h) db = Some k" and nr: "\<not> truthy (revoked_at k)"
      and ex: "\<not> truthy (expires_at k) \<or>
               (\<exists>t'. expires_at k = Some (Iso (Aware t')) \<and> clock e 0 \<le> t')"
  proof -
    from resolve_accepted [where H = H and token = token, OF assms f nr ex]
    obtain ks1 ks2 where
      d: "db = ks1 @ k # ks2" "\<forall>x \<in> set ks1. token_hmac x \<noteq> ?h" and
      res: "resolve H e (Store db) token =
             (Inr (principal_of k),
              snd (write_db e (Store db)
                     (ks1 @ k\<lparr>last_used_at := Some (Iso (Aware (clock e 0)))\<rparr> # ks2)))"
      by blast
    have p: "fst (resolve H e (Store db) token) =
           Inr \<lparr> principal_id = key_principal_id k, capabilities = key_capabilities k,
                 constraints = key_constraints k, disabled = False \<rparr>"
      by (simp add: res principal_of_def)
    have w: "snd (resolve H e (Store db) token) =
               Store (ks1 @ k\<lparr>last_used_at := Some (Iso (Aware (clock e 0)))\<rparr> # ks2)"
      if "disk e = Written"
      using that by (simp add: res write_db_def)
    from p w d show ?thesis by blast
  qed
  from c1 c2 c3 c4 c5 show ?thesis by blast
qed

text \<open>
  The amended C5 at five stores, the clock reading 1000: an empty store; a revoked record;
  a record with a garbled expiry; one that expired at 999; one that expires at 1000, which
  is not before the current time. The last store is resolved twice: with a write that
  succeeds, and with a write that fails after the file was opened, which returns the
  principal all the same.
\<close>

theorem resolve_cases_witness:
  "fst (resolve example_hmac example_env (Store []) ''t'')
      = Inl (Unauthorized ''Invalid API key'')
   \<and> fst (resolve example_hmac example_env
        (Store [example_key ''u'', (example_key ''t'')\<lparr>revoked_at := Some (Iso (Aware 5))\<rparr>]) ''t'')
      = Inl (Unauthorized ''API key revoked'')
   \<and> fst (resolve example_hmac example_env
        (Store [(example_key ''t'')\<lparr>expires_at := Some Garbled\<rparr>]) ''t'')
      = Inl (Unauthorized ''API key invalid expiry'')
   \<and> fst (resolve example_hmac example_env
        (Store [(example_key ''t'')\<lparr>expires_at := Some (Iso (Aware 999))\<rparr>]) ''t'')
      = Inl (Unauthorized ''API key expired'')
   \<and> resolve example_hmac example_env
        (Store [example_key ''u'', (example_key ''t'')\<lparr>expires_at := Some (Iso (Aware 1000))\<rparr>]) ''t''
      = (Inr \<lparr> principal_id = ''demo'', capabilities = [''tools:call''], constraints = [],
               disabled = False \<rparr>,
         Store [example_key ''u'',
                (example_key ''t'')\<lparr>expires_at := Some (Iso (Aware 1000)),
                                  last_used_at := Some (Iso (Aware 1000))\<rparr>])
   \<and> fst (resolve example_hmac (example_env\<lparr>disk := WriteFails\<rparr>)
        (Store [example_key ''u'', (example_key ''t'')\<lparr>expires_at := Some (Iso (Aware 1000))\<rparr>]) ''t'')
      = Inr \<lparr> principal_id = ''demo'', capabilities = [''tools:call''], constraints = [],
              disabled = False \<rparr>"
proof -
  let ?u = "example_key ''u''"
  let ?k = "(example_key ''t'')\<lparr>expires_at := Some (Iso (Aware 1000))\<rparr>"
  have s: "hmac_secret_env example_env = Some ''s3cret''" "''s3cret'' \<noteq> []"
    by (simp_all add: example_env_def)
  have s': "hmac_secret_env (example_env\<lparr>disk := WriteFails\<rparr>) = Some ''s3cret''"
    by (simp add: example_env_def)
  have ne: "example_hmac ''s3cret'' ''u'' \<noteq> example_hmac ''s3cret'' ''t''"
    by (simp add: example_hmac_def)
  have c0: "clock example_env 0 = 1000" "disk example_env = Written"
    by (simp_all add: example_env_def)
  note th = resolve_cases [where e = example_env and H = example_hmac and token = "''t''", OF s]
  have c1: "fst (resolve example_hmac example_env (Store []) ''t'')
      = Inl (Unauthorized ''Invalid API key'')"
    using th [where db = "[]"] by simp
  have c2: "fst (resolve example_hmac example_env
        (Store [?u, (example_key ''t'')\<lparr>revoked_at := Some (Iso (Aware 5))\<rparr>]) ''t'')
      = Inl (Unauthorized ''API key revoked'')"
    using th [where db = "[?u, (example_key ''t'')\<lparr>revoked_at := Some (Iso (Aware 5))\<rparr>]"
        and k = "(example_key ''t'')\<lparr>revoked_at := Some (Iso (Aware 5))\<rparr>"] ne
    by (simp add: example_key_def)
  have c3: "fst (resolve example_hmac example_env
        (Store [(example_key ''t'')\<lparr>expires_at := Some Garbled\<rparr>]) ''t'')
      = Inl (Unauthorized ''API key invalid expiry'')"
    using th [where db = "[(example_key ''t'')\<lparr>expires_at := Some Garbled\<rparr>]"
        and k = "(example_key ''t'')\<lparr>expires_at := Some Garbled\<rparr>"]
    by (simp add: example_key_def)
  have c4: "fst (resolve example_hmac example_env
        (Store [(example_key ''t'')\<lparr>expires_at := Some (Iso (Aware 999))\<rparr>]) ''t'')
      = Inl (Unauthorized ''API key expired'')"
    using th [where db = "[(example_key ''t'')\<lparr>expires_at := Some (Iso (Aware 999))\<rparr>]"
        and k = "(example_key ''t'')\<lparr>expires_at := Some (Iso (Aware 999))\<rparr>" and t = 999] c0
    by (simp add: example_key_def)
  have f: "find (\<lambda>k. token_hmac k = example_hmac ''s3cret'' ''t'') [?u, ?k] = Some ?k"
    using ne by (simp add: example_key_def)
  have pk: "\<not> truthy (revoked_at ?k)" "expires_at ?k = Some (Iso (Aware 1000))"
    "key_principal_id ?k = ''demo''" "key_capabilities ?k = [''tools:call'']"
    "key_constraints ?k = []"
    by (simp_all add: example_key_def)
  from th [where db = "[?u, ?k]" and k = ?k] f pk c0
  have "fst (resolve example_hmac example_env (Store [?u, ?k]) ''t'')
          = Inr \<lparr> principal_id = ''demo'', capabilities = [''tools:call''], constraints = [],
                  disabled = False \<rparr>"
    and "\<exists>ks1 ks2. [?u, ?k] = ks1 @ ?k # ks2 \<and>
           (\<forall>x \<in> set ks1. token_hmac x \<noteq> example_hmac ''s3cret'' ''t'') \<and>
           snd (resolve example_hmac example_env (Store [?u, ?k]) ''t'') =
             Store (ks1 @ ?k\<lparr>last_used_at := Some (Iso (Aware 1000))\<rparr> # ks2)"
    by simp_all
  then obtain ks1 ks2 where
    p: "fst (resolve example_hmac example_env (Store [?u, ?k]) ''t'')
          = Inr \<lparr> principal_id = ''demo'', capabilities = [''tools:call''], constraints = [],
                  disabled = False \<rparr>" and
    d: "[?u, ?k] = ks1 @ ?k # ks2" and
    n: "\<forall>x \<in> set ks1. token_hmac x \<noteq> example_hmac ''s3cret'' ''t''" and
    w: "snd (resolve example_hmac example_env (Store [?u, ?k]) ''t'') =
             Store (ks1 @ ?k\<lparr>last_used_at := Some (Iso (Aware 1000))\<rparr> # ks2)"
    by blast
  have "ks1 = [?u] \<and> ks2 = []"
  proof (cases ks1)
    case Nil
    with d have "?u = ?k" by simp
    then have "token_hmac ?u = token_hmac ?k" by simp
    with ne show ?thesis by (simp add: example_key_def)
  next
    case (Cons a as)
    with d have a: "a = ?u" and r: "[?k] = as @ ?k # ks2" by simp_all
    from r have "as = []" by (cases as) simp_all
    with r a Cons show ?thesis by simp
  qed
  with w have w': "snd (resolve example_hmac example_env (Store [?u, ?k]) ''t'') =
      Store [?u, ?k\<lparr>last_used_at := Some (Iso (Aware 1000))\<rparr>]"
    by simp
  have c5: "resolve example_hmac example_env (Store [?u, ?k]) ''t''
      = (Inr \<lparr> principal_id = ''demo'', capabilities = [''tools:call''], constraints = [],
               disabled = False \<rparr>,
         Store [?u, ?k\<lparr>last_used_at := Some (Iso (Aware 1000))\<rparr>])"
    using p w' by (simp add: prod_eq_iff)
  have c6: "fst (resolve example_hmac (example_env\<lparr>disk := WriteFails\<rparr>) (Store [?u, ?k]) ''t'')
      = Inr \<lparr> principal_id = ''demo'', capabilities = [''tools:call''], constraints = [],
              disabled = False \<rparr>"
    using resolve_cases [where e = "example_env\<lparr>disk := WriteFails\<rparr>" and H = example_hmac
        and token = "''t''" and db = "[?u, ?k]" and k = ?k, OF s' s(2)] f pk
    by (simp add: example_env_def)
  from c1 c2 c3 c4 c5 c6 show ?thesis by simp
qed

lemma find_appended:
  "\<forall>k \<in> set xs. \<not> P k \<Longrightarrow> P x \<Longrightarrow> find P (xs @ [x]) = Some x"
  by (induction xs) auto

text \<open>
  The round trip where it holds: the freshly minted token resolves to the principal of
  the mint-time arguments when no earlier record has the token's digest and the expiry is
  absent or a time-zone-aware time not before the time of the resolution.
\<close>

lemma mint_then_resolve:
  assumes m: "mint_key H e f r32 r10 pid caps cons exp prefix = (Inr token, f')"
    and s: "hmac_secret_env e = Some secret" and s': "hmac_secret_env e' = Some secret"
    and st: "f = Store db"
    and fresh: "\<forall>k \<in> set db. token_hmac k \<noteq> H secret token"
    and x: "exp = None \<or> (\<exists>t. exp = Some (Aware t) \<and> clock e' 0 \<le> t)"
  shows "fst (resolve H e' f' token) =
           Inr \<lparr> principal_id = pid, capabilities = caps, constraints = opt_list cons,
                 disabled = False \<rparr>"
proof -
  from m s have ne: "secret \<noteq> []"
    by (auto simp: mint_key_def hmac_secret_def Let_def split: if_splits)
  define r where "r = \<lparr> key_id = ''k_'' @ r10, token_hmac = H secret token,
      key_principal_id = pid, key_capabilities = caps, key_constraints = opt_list cons,
      created_at = Iso (Aware (clock e 0)), expires_at = map_option Iso exp,
      revoked_at = None, last_used_at = None \<rparr>"
  from m s ne st have d: "f' = Store (db @ [r])"
    by (auto simp: mint_key_def hmac_secret_def hmac_digest_def utcnow_def read_db_def
        write_db_def Let_def r_def split: if_splits write_outcome.splits)
  have f: "find (\<lambda>k. token_hmac k = H secret token) (db @ [r]) = Some r"
    using fresh by (intro find_appended) (simp_all add: r_def)
  have nr: "\<not> truthy (revoked_at r)" by (simp add: r_def)
  have ex: "\<not> truthy (expires_at r) \<or>
            (\<exists>t'. expires_at r = Some (Iso (Aware t')) \<and> clock e' 0 \<le> t')"
    using x by (auto simp: r_def)
  from resolve_accepted [where H = H and token = token, OF s' ne f nr ex]
  show ?thesis unfolding d by (auto simp: r_def principal_of_def)
qed

text \<open>
  C6 (the code at the failing input). A credential is minted with the naive datetime
  \<^verbatim>\<open>datetime(3000, 1, 1)\<close> as its expiry, far in the future of the clock. \<open>mint_key\<close>
  stores its \<^verbatim>\<open>isoformat()\<close>, which carries no offset; \<open>resolve\<close> of the returned token
  parses it back to a naive datetime and compares it with the aware \<^verbatim>\<open>_utcnow()\<close>
  outside the \<^verbatim>\<open>try\<close>, so it ends in \<^verbatim>\<open>TypeError\<close> and returns no principal.
\<close>

theorem mint_naive_expiry_then_resolve:
  "mint_key example_hmac example_env (Store []) ''r32'' ''r10'' ''demo'' [''tools:call''] None
       (Some (Naive 32503680000000000)) None
     = (Inr ''mcp_live_r32'',
        Store [\<lparr> key_id = ''k_r10'', token_hmac = example_hmac ''s3cret'' ''mcp_live_r32'',
                 key_principal_id = ''demo'', key_capabilities = [''tools:call''],
                 key_constraints = [], created_at = Iso (Aware 1000),
                 expires_at = Some (Iso (Naive 32503680000000000)),
                 revoked_at = None, last_used_at = None \<rparr>])
   \<and> resolve example_hmac example_env
        (Store [\<lparr> key_id = ''k_r10'', token_hmac = example_hmac ''s3cret'' ''mcp_live_r32'',
                 key_principal_id = ''demo'', key_capabilities = [''tools:call''],
                 key_constraints = [], created_at = Iso (Aware 1000),
                 expires_at = Some (Iso (Naive 32503680000000000)),
                 revoked_at = None, last_used_at = None \<rparr>]) ''mcp_live_r32''
     = (Inl (TypeError ''can't compare offset-naive and offset-aware datetimes''),
        Store [\<lparr> key_id = ''k_r10'', token_hmac = example_hmac ''s3cret'' ''mcp_live_r32'',
                 key_principal_id = ''demo'', key_capabilities = [''tools:call''],
                 key_constraints = [], created_at = Iso (Aware 1000),
                 expires_at = Some (Iso (Naive 32503680000000000)),
                 revoked_at = None, last_used_at = None \<rparr>])"
  by (simp add: mint_key_def resolve_def example_secret hmac_digest_def key_checks_def
      utcnow_def read_db_def write_db_def opt_list_def Let_def)
     (simp add: example_env_def)

lemma revoke_loop_none:
  "\<forall>k \<in> set db. \<not> (token_hmac k = h \<and> \<not> truthy (revoked_at k)) \<Longrightarrow>
   revoke_loop h clk n db = (False, db)"
  by (induction db arbitrary: n) auto

lemma revoke_loop_flag:
  "fst (revoke_loop h clk n db) \<longleftrightarrow>
     (\<exists>k \<in> set db. token_hmac k = h \<and> \<not> truthy (revoked_at k))"
  by (induction db arbitrary: n) (auto simp: case_prod_unfold Let_def)

lemma revoke_loop_length:
  "length (snd (revoke_loop h clk n db)) = length db"
  by (induction db arbitrary: n) (auto simp: case_prod_unfold Let_def)

lemma revoke_loop_nth:
  "i < length db \<Longrightarrow>
   (if token_hmac (db ! i) = h \<and> \<not> truthy (revoked_at (db ! i))
    then \<exists>m. snd (revoke_loop h clk n db) ! i =
               (db ! i)\<lparr>revoked_at := Some (Iso (Aware (clk m)))\<rparr>
    else snd (revoke_loop h clk n db) ! i = db ! i)"
proof (induction db arbitrary: n i)
  case Nil
  then show ?case by simp
next
  case (Cons k ks)
  show ?case
  proof (cases i)
    case 0
    then show ?thesis by (auto simp: case_prod_unfold Let_def)
  next
    case (Suc j)
    with Cons.prems have j: "j < length ks" by simp
    from Cons.IH [OF j, of n] Cons.IH [OF j, of "Suc n"] Suc
    show ?thesis by (auto simp: case_prod_unfold Let_def)
  qed
qed

lemma revoke_loop_first:
  "\<forall>x \<in> set ks1. \<not> (token_hmac x = h \<and> \<not> truthy (revoked_at x)) \<Longrightarrow>
   token_hmac k = h \<and> \<not> truthy (revoked_at k) \<Longrightarrow>
   revoke_loop h clk n (ks1 @ k # ks2) =
     (True, ks1 @ k\<lparr>revoked_at := Some (Iso (Aware (clk n)))\<rparr> #
              snd (revoke_loop h clk (Suc n) ks2))"
  by (induction ks1) auto

lemma revoke_loop_all_revoked:
  "\<forall>k \<in> set (snd (revoke_loop h clk n db)). \<not> (token_hmac k = h \<and> \<not> truthy (revoked_at k))"
  by (induction db arbitrary: n) (auto simp: case_prod_unfold Let_def)

lemma revoke_unfold:
  assumes "hmac_secret_env e = Some secret" and "secret \<noteq> []"
  shows "revoke H e (Store db) token =
           (if fst (revoke_loop (H secret token) (clock e) 0 db)
            then (case write_db e (Store db) (snd (revoke_loop (H secret token) (clock e) 0 db)) of
                    (Inl err, f') \<Rightarrow> (Inl err, f')
                  | (Inr u, f') \<Rightarrow> (Inr True, f'))
            else (Inr False, Store db))"
  by (simp add: revoke_def hmac_secret_set [OF assms] hmac_digest_def read_db_def
      case_prod_unfold Let_def)

lemma revoke_unchanged:
  assumes "hmac_secret_env e = Some secret" and "secret \<noteq> []"
    and "\<forall>k \<in> set db. \<not> (token_hmac k = H secret token \<and> \<not> truthy (revoked_at k))"
  shows "revoke H e (Store db) token = (Inr False, Store db)"
  using assms(3)
  by (auto simp: revoke_unfold [where H = H and token = token, OF assms(1,2)] revoke_loop_flag)

lemma revoke_returned:
  assumes "hmac_secret_env e = Some secret" and "secret \<noteq> []"
    and "revoke H e (Store db) token = (Inr changed, f')"
  shows "(changed \<longleftrightarrow> (\<exists>k \<in> set db. token_hmac k = H secret token \<and> \<not> truthy (revoked_at k)))
         \<and> (\<exists>db'. f' = Store db' \<and>
               (\<forall>k \<in> set db'. \<not> (token_hmac k = H secret token \<and> \<not> truthy (revoked_at k))))"
proof (cases "fst (revoke_loop (H secret token) (clock e) 0 db)")
  case False
  with assms(3) have "changed = False" and "f' = Store db"
    by (simp_all add: revoke_unfold [where H = H and token = token, OF assms(1,2)])
  with False show ?thesis by (simp add: revoke_loop_flag)
next
  case True
  with assms(3) have "changed = True"
    and "f' = Store (snd (revoke_loop (H secret token) (clock e) 0 db))"
    by (auto simp: revoke_unfold [where H = H and token = token, OF assms(1,2)] write_db_def
        split: write_outcome.splits)
  with True revoke_loop_all_revoked [of "H secret token" "clock e" 0 db]
  show ?thesis by (simp add: revoke_loop_flag)
qed

lemma resolve_none_live:
  assumes "hmac_secret_env e = Some secret" and "secret \<noteq> []"
    and "\<forall>k \<in> set db. \<not> (token_hmac k = H secret token \<and> \<not> truthy (revoked_at k))"
  shows "\<exists>detail. fst (resolve H e (Store db) token) = Inl (Unauthorized detail)"
proof (cases "find (\<lambda>k. token_hmac k = H secret token) db")
  case None
  then show ?thesis
    by (simp add: resolve_unfold [where H = H and token = token, OF assms(1,2)]
        resolve_loop_none)
next
  case (Some k)
  then have "k \<in> set db" and "token_hmac k = H secret token"
    by (auto simp: find_Some_iff)
  with assms(3) have "truthy (revoked_at k)" by blast
  then have "resolve_loop (H secret token) (Aware (clock e 0)) db =
               Inl (Unauthorized ''API key revoked'')"
    using Some by (simp add: resolve_loop_rejected key_checks_revoked)
  then show ?thesis
    by (simp add: resolve_unfold [where H = H and token = token, OF assms(1,2)])
qed

text \<open>
  C7. With the secret configured, on a store of records, \<open>revoke\<close> hashes the token and
  \<^item> when no record has the digest unrevoked (the token is unknown, or revoked already), it
    returns false without error and leaves the store as it is;
  \<^item> when there is one, and the store can be written, it returns true, and the first
    record that has the digest and is not revoked has \<^verbatim>\<open>revoked_at\<close> set to the current
    time afterwards; the records before it are as they were, and each record after it is
    as it was unless it too has the digest unrevoked, in which case it is stamped with a
    later reading of the clock; so when the first one is the only one, as in every store
    whose digests are distinct, nothing else changes;
  \<^item> whenever it returns, the flag tells whether a record had the digest unrevoked, that
    is, whether a change was made;
  \<^item> after it has returned, a second \<open>revoke\<close> of the same token returns false and
    changes nothing, and \<open>resolve\<close> of the token fails with Unauthorized.
\<close>

theorem revoke_first_matching:
  assumes "hmac_secret_env e = Some secret" and "secret \<noteq> []"
  shows
   "((\<forall>x \<in> set db. \<not> (token_hmac x = H secret token \<and> \<not> truthy (revoked_at x))) \<longrightarrow>
       revoke H e (Store db) token = (Inr False, Store db))
    \<and> (db = ks1 @ k # ks2 \<and>
        (\<forall>x \<in> set ks1. \<not> (token_hmac x = H secret token \<and> \<not> truthy (revoked_at x))) \<and>
        token_hmac k = H secret token \<and> \<not> truthy (revoked_at k) \<and> disk e = Written \<longrightarrow>
        (\<exists>ks2'. revoke H e (Store db) token =
                  (Inr True,
                   Store (ks1 @ k\<lparr>revoked_at := Some (Iso (Aware (clock e 0)))\<rparr> # ks2'))
            \<and> length ks2' = length ks2
            \<and> (\<forall>i < length ks2.
                  if token_hmac (ks2 ! i) = H secret token \<and> \<not> truthy (revoked_at (ks2 ! i))
                  then \<exists>n. ks2' ! i = (ks2 ! i)\<lparr>revoked_at := Some (Iso (Aware (clock e n)))\<rparr>
                  else ks2' ! i = ks2 ! i)
            \<and> ((\<forall>x \<in> set ks2. \<not> (token_hmac x = H secret token \<and> \<not> truthy (revoked_at x))) \<longrightarrow>
                 ks2' = ks2)))
    \<and> (revoke H e (Store db) token = (Inr changed, f') \<longrightarrow>
        (changed \<longleftrightarrow>
           (\<exists>x \<in> set db. token_hmac x = H secret token \<and> \<not> truthy (revoked_at x))))
    \<and> (revoke H e (Store db) token = (Inr changed, f') \<and> hmac_secret_env e' = Some secret \<longrightarrow>
        revoke H e' f' token = (Inr False, f') \<and>
        (\<exists>detail. fst (resolve H e' f' token) = Inl (Unauthorized detail)))"
proof (intro conjI impI)
  assume "\<forall>x \<in> set db. \<not> (token_hmac x = H secret token \<and> \<not> truthy (revoked_at x))"
  then show "revoke H e (Store db) token = (Inr False, Store db)"
    by (rule revoke_unchanged [where H = H and token = token, OF assms])
next
  let ?h = "H secret token"
  let ?rest = "snd (revoke_loop ?h (clock e) (Suc 0) ks2)"
  assume a: "db = ks1 @ k # ks2 \<and>
        (\<forall>x \<in> set ks1. \<not> (token_hmac x = ?h \<and> \<not> truthy (revoked_at x))) \<and>
        token_hmac k = ?h \<and> \<not> truthy (revoked_at k) \<and> disk e = Written"
  then have l: "revoke_loop ?h (clock e) 0 db =
      (True, ks1 @ k\<lparr>revoked_at := Some (Iso (Aware (clock e 0)))\<rparr> # ?rest)"
    using revoke_loop_first [of ks1 ?h k "clock e" 0 ks2] by simp
  from a have w: "disk e = Written" by simp
  have r: "revoke H e (Store db) token =
      (Inr True, Store (ks1 @ k\<lparr>revoked_at := Some (Iso (Aware (clock e 0)))\<rparr> # ?rest))"
    by (simp add: revoke_unfold [where H = H and token = token, OF assms] l w write_db_def)
  have n: "\<forall>i < length ks2.
             if token_hmac (ks2 ! i) = ?h \<and> \<not> truthy (revoked_at (ks2 ! i))
             then \<exists>n. ?rest ! i = (ks2 ! i)\<lparr>revoked_at := Some (Iso (Aware (clock e n)))\<rparr>
             else ?rest ! i = ks2 ! i"
    using revoke_loop_nth [of _ ks2 ?h "clock e" "Suc 0"] by blast
  have u: "(\<forall>x \<in> set ks2. \<not> (token_hmac x = ?h \<and> \<not> truthy (revoked_at x))) \<longrightarrow> ?rest = ks2"
    by (simp add: revoke_loop_none)
  from r n u revoke_loop_length [of ?h "clock e" "Suc 0" ks2]
  show "\<exists>ks2'. revoke H e (Store db) token =
                  (Inr True,
                   Store (ks1 @ k\<lparr>revoked_at := Some (Iso (Aware (clock e 0)))\<rparr> # ks2'))
            \<and> length ks2' = length ks2
            \<and> (\<forall>i < length ks2.
                  if token_hmac (ks2 ! i) = ?h \<and> \<not> truthy (revoked_at (ks2 ! i))
                  then \<exists>n. ks2' ! i = (ks2 ! i)\<lparr>revoked_at := Some (Iso (Aware (clock e n)))\<rparr>
                  else ks2' ! i = ks2 ! i)
            \<and> ((\<forall>x \<in> set ks2. \<not> (token_hmac x = ?h \<and> \<not> truthy (revoked_at x))) \<longrightarrow>
                 ks2' = ks2)"
    by (intro exI [of _ ?rest] conjI)
next
  assume "revoke H e (Store db) token = (Inr changed, f')"
  then show "changed \<longleftrightarrow>
      (\<exists>x \<in> set db. token_hmac x = H secret token \<and> \<not> truthy (revoked_at x))"
    using revoke_returned [where H = H and token = token, OF assms] by blast
next
  assume a: "revoke H e (Store db) token = (Inr changed, f') \<and> hmac_secret_env e' = Some secret"
  then obtain db' where
    f': "f' = Store db'" and
    n: "\<forall>k \<in> set db'. \<not> (token_hmac k = H secret token \<and> \<not> truthy (revoked_at k))"
    using revoke_returned [where H = H and token = token, OF assms] by blast
  from a have s': "hmac_secret_env e' = Some secret" by simp
  show "revoke H e' f' token = (Inr False, f')"
    unfolding f' using n by (rule revoke_unchanged [where H = H and token = token, OF s' assms(2)])
  show "\<exists>detail. fst (resolve H e' f' token) = Inl (Unauthorized detail)"
    unfolding f' using n by (rule resolve_none_live [where H = H and token = token, OF s' assms(2)])
qed

text \<open>
  C7 at a store of three credentials, for the tokens \<open>u\<close>, \<open>t\<close> and \<open>v\<close>, the clock
  reading 1000: revoking the unknown token \<open>x\<close> returns false and changes nothing;
  revoking \<open>t\<close> returns true and stamps the record of \<open>t\<close> alone; revoking \<open>t\<close> again,
  a thousand ticks later, returns false and changes nothing, and \<open>t\<close> no longer
  resolves.
\<close>

theorem revoke_first_matching_witness:
  "revoke example_hmac example_env
      (Store [example_key ''u'', example_key ''t'', example_key ''v'']) ''x''
     = (Inr False, Store [example_key ''u'', example_key ''t'', example_key ''v''])
   \<and> revoke example_hmac example_env
      (Store [example_key ''u'', example_key ''t'', example_key ''v'']) ''t''
     = (Inr True, Store [example_key ''u'',
                         (example_key ''t'')\<lparr>revoked_at := Some (Iso (Aware 1000))\<rparr>,
                         example_key ''v''])
   \<and> revoke example_hmac (example_env\<lparr>clock := (\<lambda>n. 2000 + int n)\<rparr>)
      (Store [example_key ''u'',
              (example_key ''t'')\<lparr>revoked_at := Some (Iso (Aware 1000))\<rparr>,
              example_key ''v'']) ''t''
     = (Inr False, Store [example_key ''u'',
                          (example_key ''t'')\<lparr>revoked_at := Some (Iso (Aware 1000))\<rparr>,
                          example_key ''v''])
   \<and> (\<exists>detail. fst (resolve example_hmac (example_env\<lparr>clock := (\<lambda>n. 2000 + int n)\<rparr>)
      (Store [example_key ''u'',
              (example_key ''t'')\<lparr>revoked_at := Some (Iso (Aware 1000))\<rparr>,
              example_key ''v'']) ''t'')
     = Inl (Unauthorized detail))"
proof -
  let ?u = "example_key ''u''" and ?t = "example_key ''t''" and ?v = "example_key ''v''"
  let ?t' = "(example_key ''t'')\<lparr>revoked_at := Some (Iso (Aware 1000))\<rparr>"
  let ?e' = "example_env\<lparr>clock := (\<lambda>n. 2000 + int n)\<rparr>"
  have s: "hmac_secret_env example_env = Some ''s3cret''" "''s3cret'' \<noteq> []"
    by (simp_all add: example_env_def)
  have s': "hmac_secret_env ?e' = Some ''s3cret''"
    by (simp add: example_env_def)
  have c0: "clock example_env 0 = 1000" "disk example_env = Written"
    by (simp_all add: example_env_def)
  have h: "token_hmac ?u = example_hmac ''s3cret'' ''u''"
    "token_hmac ?t = example_hmac ''s3cret'' ''t''"
    "token_hmac ?v = example_hmac ''s3cret'' ''v''"
    "revoked_at ?u = None" "revoked_at ?t = None" "revoked_at ?v = None"
    by (simp_all add: example_key_def)
  have ne: "example_hmac ''s3cret'' ''u'' \<noteq> example_hmac ''s3cret'' ''x''"
    "example_hmac ''s3cret'' ''t'' \<noteq> example_hmac ''s3cret'' ''x''"
    "example_hmac ''s3cret'' ''v'' \<noteq> example_hmac ''s3cret'' ''x''"
    "example_hmac ''s3cret'' ''u'' \<noteq> example_hmac ''s3cret'' ''t''"
    "example_hmac ''s3cret'' ''v'' \<noteq> example_hmac ''s3cret'' ''t''"
    by (simp_all add: example_hmac_def)
  have w1: "revoke example_hmac example_env (Store [?u, ?t, ?v]) ''x''
              = (Inr False, Store [?u, ?t, ?v])"
    using revoke_first_matching [where e = example_env and H = example_hmac
        and token = "''x''" and db = "[?u, ?t, ?v]", OF s] h ne
    by simp
  note th = revoke_first_matching [where e = example_env and H = example_hmac
      and token = "''t''" and db = "[?u, ?t, ?v]", OF s]
  from th [where ?ks1.0 = "[?u]" and k = ?t and ?ks2.0 = "[?v]"] h ne c0
  obtain ks2' where
    "revoke example_hmac example_env (Store [?u, ?t, ?v]) ''t''
       = (Inr True, Store ([?u] @ ?t' # ks2'))" and "ks2' = [?v]"
    by auto
  then have w2: "revoke example_hmac example_env (Store [?u, ?t, ?v]) ''t''
       = (Inr True, Store [?u, ?t', ?v])"
    by simp
  from th [where changed = True and f' = "Store [?u, ?t', ?v]" and e' = ?e'] w2 s'
  have w3: "revoke example_hmac ?e' (Store [?u, ?t', ?v]) ''t'' = (Inr False, Store [?u, ?t', ?v])"
    and w4: "\<exists>detail. fst (resolve example_hmac ?e' (Store [?u, ?t', ?v]) ''t'')
               = Inl (Unauthorized detail)"
    by blast+
  from w1 w2 w3 w4 show ?thesis by blast
qed

text \<open>
  Each stamped record gets a reading of the clock of its own: in a store where two
  unrevoked records carry the digest of the token, the first is stamped with the first
  reading and the second with the next one.
\<close>

lemma revoke_stamps_in_order:
  "revoke example_hmac example_env
      (Store [example_key ''t'', (example_key ''t'')\<lparr>key_id := ''k_2''\<rparr>]) ''t''
     = (Inr True,
        Store [(example_key ''t'')\<lparr>revoked_at := Some (Iso (Aware 1000))\<rparr>,
               (example_key ''t'')\<lparr>key_id := ''k_2'', revoked_at := Some (Iso (Aware 1001))\<rparr>])"
  by (simp add: revoke_def example_secret hmac_digest_def read_db_def example_key_def
      write_db_def)
     (simp add: example_env_def)

text \<open>
  C10. \<open>mint_key\<close> with the default prefix returns a token exactly when the secret is
  configured, the store file parses and the write succeeds; the token then is the literal
  \<open>mcp_live_\<close> followed by the URL-safe random draw, and the store gains one record,
  none of whose fields is the token: the token enters it only through \<^verbatim>\<open>token_hmac\<close>,
  the HMAC-SHA256 digest under the secret of the full token string, prefix included.
\<close>

theorem mint_key_default:
  "mint_key H e f r32 r10 pid caps cons exp None = (Inr token, f') \<longleftrightarrow>
     (\<exists>secret db. hmac_secret_env e = Some secret \<and> secret \<noteq> [] \<and> f = Store db \<and>
        disk e = Written \<and>
        token = ''mcp_live_'' @ r32 \<and>
        f' = Store (db @ [\<lparr> key_id = ''k_'' @ r10,
                             token_hmac = H secret (''mcp_live_'' @ r32),
                             key_principal_id = pid, key_capabilities = caps,
                             key_constraints = opt_list cons,
                             created_at = Iso (Aware (clock e 0)),
                             expires_at = map_option Iso exp,
                             revoked_at = None, last_used_at = None \<rparr>]))"
  by (auto simp: mint_key_def hmac_secret_def hmac_digest_def utcnow_def read_db_def
      write_db_def Let_def
      split: option.splits if_splits store_file.splits write_outcome.splits)

section \<open>Delegated trust: properties\<close>

text \<open>
  C9 (counterexample to the claim as stated). The identity header is \<open>alice\<close> and the
  constraints header is present with a blank value, which is no valid JSON. The resolver
  does not fail: it returns the principal with empty constraints.
\<close>

theorem blank_constraints_counterexample:
  "[''X-MCP-Principal'' \<mapsto> ''alice'', ''X-MCP-Constraints'' \<mapsto> '' ''] ''X-MCP-Constraints'' = Some '' ''
   \<and> example_json_loads '' '' = None
   \<and> principal_external example_json_loads
        [''X-MCP-Principal'' \<mapsto> ''alice'', ''X-MCP-Constraints'' \<mapsto> '' '']
      = Inr \<lparr> principal_id = ''alice'', capabilities = [], constraints = [], disabled = False \<rparr>"
  by (simp add: principal_external_def header_def strip_def isspace_def example_json_loads_def)

text \<open>
  C9 (amended). In delegated-trust mode the resolver
  \<^item> fails with Unauthorized when the identity header is absent, empty or blank;
  \<^item> else fails with Unauthorized when the constraints header, with the white space
    around it removed, is not empty and is not valid JSON;
  \<^item> else returns the principal built from the headers: the stripped identity, the
    non-empty stripped entries of the comma-separated capabilities header, and as
    constraints the parsed JSON object, or the empty mapping when the constraints header is
    absent or blank or holds JSON that is not an object.
\<close>

theorem principal_external_cases:
  "(headers ''X-MCP-Principal'' = None \<or> strip (header headers ''X-MCP-Principal'') = [] \<longrightarrow>
      principal_external json_loads headers = Inl (Unauthorized ''Missing X-MCP-Principal''))
   \<and> (strip (header headers ''X-MCP-Principal'') \<noteq> [] \<and>
       strip (header headers ''X-MCP-Constraints'') \<noteq> [] \<and>
       json_loads (strip (header headers ''X-MCP-Constraints'')) = None \<longrightarrow>
      principal_external json_loads headers = Inl (Unauthorized ''Invalid X-MCP-Constraints''))
   \<and> (strip (header headers ''X-MCP-Principal'') \<noteq> [] \<and>
       (strip (header headers ''X-MCP-Constraints'') = [] \<or>
        json_loads (strip (header headers ''X-MCP-Constraints'')) \<noteq> None) \<longrightarrow>
      principal_external json_loads headers =
        Inr \<lparr> principal_id = strip (header headers ''X-MCP-Principal''),
              capabilities = filter (\<lambda>c. c \<noteq> [])
                (map strip (split CHR '','' (strip (header headers ''X-MCP-Capabilities'')))),
              constraints =
                (if strip (header headers ''X-MCP-Constraints'') = [] then []
                 else case json_loads (strip (header headers ''X-MCP-Constraints'')) of
                        Some (JObj d) \<Rightarrow> d | _ \<Rightarrow> []),
              disabled = False \<rparr>)"
proof -
  let ?pid = "strip (header headers ''X-MCP-Principal'')"
  let ?cons = "strip (header headers ''X-MCP-Constraints'')"
  let ?caps = "filter (\<lambda>c. c \<noteq> [])
                (map strip (split CHR '','' (strip (header headers ''X-MCP-Capabilities''))))"
  have absent: "?pid = []" if "headers ''X-MCP-Principal'' = None"
    using that by (simp add: header_def strip_def)
  have c1: "principal_external json_loads headers = Inl (Unauthorized ''Missing X-MCP-Principal'')"
    if "?pid = []"
    using that by (simp add: principal_external_def)
  have c2: "principal_external json_loads headers = Inl (Unauthorized ''Invalid X-MCP-Constraints'')"
    if "?pid \<noteq> []" and "?cons \<noteq> []" and "json_loads ?cons = None"
    using that by (simp add: principal_external_def Let_def)
  have c3: "principal_external json_loads headers =
              Inr \<lparr> principal_id = ?pid, capabilities = ?caps, constraints = [], disabled = False \<rparr>"
    if "?pid \<noteq> []" and "?cons = []"
    using that by (simp add: principal_external_def Let_def)
  have c4: "principal_external json_loads headers =
              Inr \<lparr> principal_id = ?pid, capabilities = ?caps,
                    constraints = (case json_loads ?cons of Some (JObj d) \<Rightarrow> d | _ \<Rightarrow> []),
                    disabled = False \<rparr>"
    if "?pid \<noteq> []" and "?cons \<noteq> []" and "json_loads ?cons = Some j" for j
    using that by (cases j) (simp_all add: principal_external_def Let_def)
  show ?thesis
  proof (intro conjI impI)
    assume "headers ''X-MCP-Principal'' = None \<or> ?pid = []"
    then have "?pid = []" using absent by blast
    then show "principal_external json_loads headers = Inl (Unauthorized ''Missing X-MCP-Principal'')"
      by (rule c1)
  next
    assume "?pid \<noteq> [] \<and> ?cons \<noteq> [] \<and> json_loads ?cons = None"
    then show "principal_external json_loads headers = Inl (Unauthorized ''Invalid X-MCP-Constraints'')"
      using c2 by blast
  next
    assume a: "?pid \<noteq> [] \<and> (?cons = [] \<or> json_loads ?cons \<noteq> None)"
    show "principal_external json_loads headers =
        Inr \<lparr> principal_id = ?pid, capabilities = ?caps,
              constraints =
                (if ?cons = [] then []
                 else case json_loads ?cons of Some (JObj d) \<Rightarrow> d | _ \<Rightarrow> []),
              disabled = False \<rparr>"
    proof (cases "?cons = []")
      case True
      with a c3 show ?thesis by simp
    next
      case False
      with a obtain j where "json_loads ?cons = Some j" by auto
      with a False c4 [of j] show ?thesis by simp
    qed
  qed
qed

text \<open>
  The amended C9 at three requests: no headers; an identity and the constraints text
  \<open>{\<close>; an identity, two capabilities and the constraints \<open>{}\<close>.
\<close>

theorem principal_external_cases_witness:
  "principal_external example_json_loads Map.empty
     = Inl (Unauthorized ''Missing X-MCP-Principal'')
   \<and> principal_external example_json_loads
        [''X-MCP-Principal'' \<mapsto> ''alice'', ''X-MCP-Constraints'' \<mapsto> ''{'']
     = Inl (Unauthorized ''Invalid X-MCP-Constraints'')
   \<and> principal_external example_json_loads
        [''X-MCP-Principal'' \<mapsto> '' alice '', ''X-MCP-Capabilities'' \<mapsto> ''tools:call, tool:math:*,'',
         ''X-MCP-Constraints'' \<mapsto> ''{}'']
     = Inr \<lparr> principal_id = ''alice'', capabilities = [''tools:call'', ''tool:math:*''],
             constraints = [], disabled = False \<rparr>"
proof -
  have c1: "principal_external example_json_loads Map.empty
     = Inl (Unauthorized ''Missing X-MCP-Principal'')"
    using principal_external_cases [of Map.empty example_json_loads] by simp
  have c2: "principal_external example_json_loads
        [''X-MCP-Principal'' \<mapsto> ''alice'', ''X-MCP-Constraints'' \<mapsto> ''{'']
     = Inl (Unauthorized ''Invalid X-MCP-Constraints'')"
    using principal_external_cases
      [of "[''X-MCP-Principal'' \<mapsto> ''alice'', ''X-MCP-Constraints'' \<mapsto> ''{'']" example_json_loads]
    by (simp add: header_def strip_def isspace_def example_json_loads_def)
  have c3: "principal_external example_json_loads
        [''X-MCP-Principal'' \<mapsto> '' alice '', ''X-MCP-Capabilities'' \<mapsto> ''tools:call, tool:math:*,'',
         ''X-MCP-Constraints'' \<mapsto> ''{}'']
     = Inr \<lparr> principal_id = ''alice'', capabilities = [''tools:call'', ''tool:math:*''],
             constraints = [], disabled = False \<rparr>"
    using principal_external_cases
      [of "[''X-MCP-Principal'' \<mapsto> '' alice '', ''X-MCP-Capabilities'' \<mapsto> ''tools:call, tool:math:*,'',
         ''X-MCP-Constraints'' \<mapsto> ''{}'']" example_json_loads]
    by (simp add: header_def strip_def isspace_def example_json_loads_def)
  from c1 c2 c3 show ?thesis by blast
qed


end
